theory Spec2Isabelle
  imports Main
begin

section \<open>The CPG driver script: \<open>execute\<close>\<close>

text \<open>
  The script \<open>execute(inputPath, outputFile)\<close> imports the code at \<open>inputPath\<close> into the
  graph engine under the fixed project name \<open>vuln_scan_final\<close>, runs a fixed list of named
  queries, collects for every result node the code of its parent function, writes the
  collected entries as a JSON array to \<open>outputFile\<close> and deletes the project.

  The graph engine itself (the workspace, the language frontend behind \<open>importCode\<close>, the
  traversals the query bodies are made of, \<open>os.write\<close>) is an external library. Its
  observable results are parameters of the model: a node carries what its accessors return,
  a graph carries its methods and what each named traversal yields on it, and the environment
  says what the frontend makes of a path and whether a file write succeeds. A Scala exception
  is a value \<open>Inl e\<close>.
\<close>

subsection \<open>Data\<close>

datatype exn = Throwable string

datatype json = Str string | Obj "(string \<times> json) list" | Arr "json list"

text \<open>
  A node location as the script reads it. \<open>lineNumberString\<close> is the value of
  \<open>l.lineNumber.toString\<close>, or \<open>None\<close> when evaluating it throws.
\<close>

record location =
  methodFullName :: string
  filename :: string
  lineNumberString :: "string option"

text \<open>
  A stored node: whether it is a \<open>Method\<close>, what \<open>m.code\<close> returns for it (read only
  for a \<open>Method\<close>), and what \<open>node.location\<close> returns.
\<close>

record stored_node =
  isMethod :: bool
  code :: "exn + string"
  location :: "exn + location"

datatype elem = StoredNode stored_node | NotStored

datatype any_value = IterableOnce "elem list" | NotIterable

record method_decl =
  fullName :: string
  mcode :: string

text \<open>
  A graph: its method nodes, in traversal order, and for each query name what evaluating
  that query's traversal on this graph gives (an exception, or the raw result).
\<close>

record cpg =
  methods :: "method_decl list"
  traversal :: "string \<Rightarrow> exn + any_value"

datatype out_line =
    Analyzing string
  | ImportingCode
  | CpgLoaded
  | QueriesLoaded nat
  | ResultsSaved string
  | TotalUniqueFunctions nat
  | NoVulnerabilitiesFound

datatype event =
    Println out_line
  | DeleteProject string
  | ImportCode string string
  | WriteOver string json

text \<open>
  The world the script acts on: the workspace's projects (project name to imported path)
  and the sequence of effects performed so far, oldest first.
\<close>

record world =
  projects :: "string \<rightharpoonup> string"
  trace :: "event list"

record env =
  frontend :: "string \<Rightarrow> exn + cpg"
  write_error :: "string \<Rightarrow> json \<Rightarrow> exn option"

type_synonym unique_functions = "(string \<times> json) list"

subsection \<open>Effects\<close>

definition println :: "out_line \<Rightarrow> world \<Rightarrow> world" where
  "println l w = w\<lparr>trace := trace w @ [Println l]\<rparr>"

definition deleteProject :: "string \<Rightarrow> world \<Rightarrow> world" where
  "deleteProject name w =
     w\<lparr>projects := (projects w)(name := None), trace := trace w @ [DeleteProject name]\<rparr>"

text \<open>
  \<open>importCode\<close>: the frontend builds the graph; on success the project is in the
  workspace. A failing import leaves the workspace as it was.
\<close>

definition importCode :: "env \<Rightarrow> string \<Rightarrow> string \<Rightarrow> world \<Rightarrow> world \<times> (exn + cpg)" where
  "importCode en inputPath projectName w =
     (case frontend en inputPath of
        Inl e \<Rightarrow> (w, Inl e)
      | Inr g \<Rightarrow>
          (w\<lparr>projects := (projects w)(projectName \<mapsto> inputPath),
             trace := trace w @ [ImportCode inputPath projectName]\<rparr>, Inr g))"

definition write_over :: "env \<Rightarrow> string \<Rightarrow> json \<Rightarrow> world \<Rightarrow> world \<times> (exn + unit)" where
  "write_over en outputFile j w =
     (case write_error en outputFile j of
        Some e \<Rightarrow> (w, Inl e)
      | None \<Rightarrow> (w\<lparr>trace := trace w @ [WriteOver outputFile j]\<rparr>, Inr ()))"

subsection \<open>The queries\<close>

text \<open>The names of the queries the script defines (those not commented out), in order.\<close>

definition query_names :: "string list" where
  "query_names =
     [''call-to-gets'', ''call-to-getwd'', ''call-to-scanf'', ''call-to-strcat'',
      ''call-to-strcpy'', ''call-to-strtok'', ''file-operation-race'',
      ''format-controlled-printf'', ''free-returned-value'', ''malloc-memcpy-int-overflow'',
      ''setgid-without-setgroups'', ''setuid-without-setgid'', ''strlen-truncation'',
      ''strncpy-no-null-term'', ''call-to-exec'', ''ineffective-certificate-check'',
      ''simple-constant-detection'', ''sql-injection'', ''xss-servlet'']"

definition queries :: "(string \<times> (cpg \<Rightarrow> exn + any_value)) list" where
  "queries = map (\<lambda>name. (name, \<lambda>g. traversal g name)) query_names"

subsection \<open>Result extraction\<close>

definition getOrElse :: "exn + 'a \<Rightarrow> 'a \<Rightarrow> 'a" where
  "getOrElse t d = (case t of Inl e \<Rightarrow> d | Inr v \<Rightarrow> v)"

definition headOption :: "'a list \<Rightarrow> 'a option" where
  "headOption xs = (case xs of [] \<Rightarrow> None | x # _ \<Rightarrow> Some x)"

text \<open>\<open>t.iterator.collect { case n: StoredNode => n }.toList\<close>, or the empty list.\<close>

fun collect_stored :: "elem list \<Rightarrow> stored_node list" where
  "collect_stored [] = []"
| "collect_stored (StoredNode n # es) = n # collect_stored es"
| "collect_stored (NotStored # es) = collect_stored es"

definition resultList :: "any_value \<Rightarrow> stored_node list" where
  "resultList rawResult =
     (case rawResult of IterableOnce t \<Rightarrow> collect_stored t | NotIterable \<Rightarrow> [])"

text \<open>
  The code of the node's parent function: the node's own code for a \<open>Method\<close>, otherwise
  the code of the first method whose full name is the node's \<open>location.methodFullName\<close>,
  \<open>N/A\<close> when there is none, and \<open>N/A\<close> when anything in the block throws.
\<close>

definition parentMethodCode :: "cpg \<Rightarrow> stored_node \<Rightarrow> string" where
  "parentMethodCode myCpg node =
     getOrElse
       (if isMethod node then code node
        else (case location node of
                Inl e \<Rightarrow> Inl e
              | Inr loc \<Rightarrow>
                  Inr (case headOption
                              (map mcode
                                 (filter (\<lambda>m. fullName m = methodFullName loc) (methods myCpg))) of
                         None \<Rightarrow> ''N/A''
                       | Some c \<Rightarrow> c)))
       ''N/A''"

definition contains :: "unique_functions \<Rightarrow> string \<Rightarrow> bool" where
  "contains uniqueFunctions k = (k \<in> fst ` set uniqueFunctions)"

definition entry :: "string \<Rightarrow> location \<Rightarrow> json" where
  "entry parentCode l =
     Obj [(''parentFunctionCode'', Str parentCode),
          (''filename'', Str (filename l)),
          (''lineNumber'',
             Str (case lineNumberString l of None \<Rightarrow> ''unknown'' | Some s \<Rightarrow> s))]"

text \<open>
  The body of \<open>resultList.foreach\<close>. The map is insertion ordered and a key is written
  only when it is absent, so an insertion appends.
\<close>

definition collect_node :: "cpg \<Rightarrow> unique_functions \<Rightarrow> stored_node \<Rightarrow> exn + unique_functions" where
  "collect_node myCpg uniqueFunctions node =
     (let p = parentMethodCode myCpg node in
      if p \<noteq> ''N/A'' \<and> \<not> contains uniqueFunctions p then
        (case location node of
           Inl e \<Rightarrow> Inl e
         | Inr l \<Rightarrow> Inr (uniqueFunctions @ [(p, entry p l)]))
      else Inr uniqueFunctions)"

fun collect_nodes :: "cpg \<Rightarrow> unique_functions \<Rightarrow> stored_node list \<Rightarrow> exn + unique_functions" where
  "collect_nodes myCpg uf [] = Inr uf"
| "collect_nodes myCpg uf (node # nodes) =
     (case collect_node myCpg uf node of
        Inl e \<Rightarrow> Inl e
      | Inr uf' \<Rightarrow> collect_nodes myCpg uf' nodes)"

text \<open>The body of \<open>queries.foreach\<close>; the query's name is bound and not used.\<close>

definition run_query ::
  "cpg \<Rightarrow> unique_functions \<Rightarrow> string \<times> (cpg \<Rightarrow> exn + any_value) \<Rightarrow> exn + unique_functions" where
  "run_query myCpg uf q =
     (case (snd q) myCpg of
        Inl e \<Rightarrow> Inl e
      | Inr rawResult \<Rightarrow> collect_nodes myCpg uf (resultList rawResult))"

fun run_queries ::
  "cpg \<Rightarrow> unique_functions \<Rightarrow> (string \<times> (cpg \<Rightarrow> exn + any_value)) list \<Rightarrow> exn + unique_functions" where
  "run_queries myCpg uf [] = Inr uf"
| "run_queries myCpg uf (q # qs) =
     (case run_query myCpg uf q of
        Inl e \<Rightarrow> Inl e
      | Inr uf' \<Rightarrow> run_queries myCpg uf' qs)"

subsection \<open>The script\<close>

definition projectName :: string where
  "projectName = ''vuln_scan_final''"

text \<open>
  The first part of the script, up to the loaded graph: the start-of-run cleanup and the
  import. This is how a session on the graph engine is opened.
\<close>

definition open_project :: "env \<Rightarrow> string \<Rightarrow> world \<Rightarrow> world \<times> (exn + cpg)" where
  "open_project en inputPath w =
     (let w1 = println (Analyzing inputPath) w;
          w2 = (if projects w1 projectName \<noteq> None then deleteProject projectName w1 else w1);
          w3 = println ImportingCode w2
      in case importCode en inputPath projectName w3 of
           (w4, Inl e) \<Rightarrow> (w4, Inl e)
         | (w4, Inr myCpg) \<Rightarrow> (println CpgLoaded w4, Inr myCpg))"

definition execute :: "env \<Rightarrow> string \<Rightarrow> string \<Rightarrow> world \<Rightarrow> world \<times> (exn + unit)" where
  "execute en inputPath outputFile w =
     (case open_project en inputPath w of
        (w5, Inl e) \<Rightarrow> (w5, Inl e)
      | (w5, Inr myCpg) \<Rightarrow>
          (let w6 = println (QueriesLoaded (length queries)) w5 in
           case run_queries myCpg [] queries of
             Inl e \<Rightarrow> (w6, Inl e)
           | Inr uniqueFunctions \<Rightarrow>
               (let jsonResult = Arr (map snd uniqueFunctions) in
                case write_over en outputFile jsonResult w6 of
                  (w7, Inl e) \<Rightarrow> (w7, Inl e)
                | (w7, Inr u) \<Rightarrow>
                    (let foundIssues = length uniqueFunctions;
                         w8 = println (ResultsSaved outputFile) w7;
                         w9 = println (TotalUniqueFunctions foundIssues) w8;
                         w10 = (if foundIssues = 0 then println NoVulnerabilitiesFound w9 else w9)
                     in (deleteProject projectName w10, Inr ())))))"

section \<open>The analysis panel: \<open>GraphIDEViewPane\<close>\<close>

text \<open>
  The panel keeps a list of chat messages, the content of the last error shown, the number
  of times it has been shown, and a container element with one child per rendered message.
  The repository holds two versions of the class. The first (beside the panel's
  contribution file) has \<open>addMessage\<close>, \<open>renderMessage\<close>, \<open>clearHistory\<close> and
  \<open>handleAnalyze\<close>; the second (the navigation, dashboard and graph redesign) routes
  \<open>addMessage\<close> through \<open>addMessageWithStreamOption\<close>. Definitions of the second
  version whose names would clash carry the suffix \<open>_v2\<close>.

  The container is modelled by its message elements. An element is what
  \<open>renderMessage\<close> builds: its class list, the role child (icon, label and, once created,
  the \<open>error-count\<close> badge), and the content. The badge text \<open>(n x)\<close> is modelled by
  the number \<open>n\<close>. The \<open>timestamp\<close> field of a message, which nothing reads, the
  \<open>tabindex\<close> and \<open>aria\<close> attributes and the scroll position are left out. Markdown
  rendering is external; rendered content is taken to contain no element of the classes
  the panel queries.
\<close>

subsection \<open>Data\<close>

datatype role = User | System

datatype msg_type = Normal | Error | Warning

record chat_message =
  role :: role
  content :: string
  mtype :: "msg_type option"

record role_el =
  iconClass :: string
  labelText :: string
  countBadge :: "nat option"

record message_el =
  classes :: "string list"
  roleEl :: "role_el option"
  contentMarkdown :: string
  loadingDots :: bool
  streamed :: bool

record pane =
  messages :: "chat_message list"
  lastErrorContent :: string
  errorCount :: nat
  messagesContainer :: "message_el list"

record uri =
  fsPath :: string

record payload =
  intent :: string
  filePath :: string
  language :: string
  userQuery :: string

record agent_output =
  markdownOutput :: "string option"
  message :: "string option"

text \<open>The fields of the backend's JSON answer that the panel reads.\<close>

record scan_data =
  agentOutputs :: "agent_output list option"
  dataMessage :: "string option"
  status :: "string option"

text \<open>
  The request service: what the POST of a payload to \<open>/agent/request\<close> gives, an
  exception or the parsed body (\<open>None\<close> for a null body).
\<close>

type_synonym request_service = "payload \<Rightarrow> exn + scan_data option"

definition nl :: string where
  "nl = [CHR 0x0A]"

definition exn_message :: "exn \<Rightarrow> string" where
  "exn_message e = (case e of Throwable m \<Rightarrow> m)"

text \<open>JavaScript's \<open>a || b\<close> on optional strings: the empty string is falsy.\<close>

definition or_else :: "string option \<Rightarrow> string option \<Rightarrow> string option" where
  "or_else a b = (case a of Some s \<Rightarrow> (if s \<noteq> [] then Some s else b) | None \<Rightarrow> b)"

definition truthy :: "string option \<Rightarrow> bool" where
  "truthy a = (case a of Some s \<Rightarrow> s \<noteq> [] | None \<Rightarrow> False)"

subsection \<open>Queries on the container\<close>

definition is_error_el :: "message_el \<Rightarrow> bool" where
  "is_error_el el = (''graphide-message-error'' \<in> set (classes el))"

text \<open>
  The index of the last element matched by
  \<open>querySelectorAll('.graphide-message-error')\<close>, if any.
\<close>

fun last_error_index :: "message_el list \<Rightarrow> nat option" where
  "last_error_index [] = None"
| "last_error_index (el # els) =
     (case last_error_index els of
        Some i \<Rightarrow> Some (Suc i)
      | None \<Rightarrow> (if is_error_el el then Some 0 else None))"

text \<open>\<open>lastEl.querySelector('.error-count')\<close>: the badge lives in the role child.\<close>

definition query_error_count :: "message_el \<Rightarrow> nat option" where
  "query_error_count el = (case roleEl el of None \<Rightarrow> None | Some r \<Rightarrow> countBadge r)"

definition set_badge :: "nat \<Rightarrow> message_el \<Rightarrow> message_el" where
  "set_badge n el =
     (case roleEl el of
        None \<Rightarrow> el
      | Some r \<Rightarrow> el\<lparr>roleEl := Some (r\<lparr>countBadge := Some n\<rparr>)\<rparr>)"

subsection \<open>First version\<close>

definition role_class :: "role \<Rightarrow> string" where
  "role_class r = (if r = User then ''graphide-message-user'' else ''graphide-message-system'')"

definition state_classes :: "msg_type option \<Rightarrow> string list" where
  "state_classes t =
     (if t = Some Error then [''graphide-message-error'']
      else if t = Some Warning then [''graphide-message-warning'']
      else [])"

definition role_label :: "chat_message \<Rightarrow> role_el" where
  "role_label m =
     (if role m = User then
        \<lparr>iconClass = ''codicon-account'', labelText = ''You'', countBadge = None\<rparr>
      else if mtype m = Some Error then
        \<lparr>iconClass = ''codicon-error'', labelText = ''Error'', countBadge = None\<rparr>
      else if mtype m = Some Warning then
        \<lparr>iconClass = ''codicon-warning'', labelText = ''Warning'', countBadge = None\<rparr>
      else
        \<lparr>iconClass = ''codicon-hubot'', labelText = ''Analysis Result'', countBadge = None\<rparr>)"

definition renderMessage :: "chat_message \<Rightarrow> pane \<Rightarrow> pane" where
  "renderMessage m st =
     st\<lparr>messagesContainer := messagesContainer st @
          [\<lparr>classes = [''graphide-message'', role_class (role m)] @ state_classes (mtype m),
            roleEl = Some (role_label m),
            contentMarkdown = content m,
            loadingDots = False,
            streamed = False\<rparr>]\<rparr>"

text \<open>
  The badge update of the first version: an existing badge gets the new text; otherwise a
  badge is created in the role child, when there is one.
\<close>

definition update_badge :: "nat \<Rightarrow> message_el \<Rightarrow> message_el" where
  "update_badge n lastEl =
     (case query_error_count lastEl of
        Some b \<Rightarrow> set_badge n lastEl
      | None \<Rightarrow>
          (case roleEl lastEl of
             Some r \<Rightarrow> lastEl\<lparr>roleEl := Some (r\<lparr>countBadge := Some n\<rparr>)\<rparr>
           | None \<Rightarrow> lastEl))"

definition reset_error_tracking :: "string \<Rightarrow> msg_type \<Rightarrow> pane \<Rightarrow> pane" where
  "reset_error_tracking c t st =
     (if t = Error then st\<lparr>lastErrorContent := c, errorCount := 1\<rparr>
      else st\<lparr>lastErrorContent := [], errorCount := 0\<rparr>)"

definition addMessage :: "role \<Rightarrow> string \<Rightarrow> msg_type \<Rightarrow> pane \<Rightarrow> pane" where
  "addMessage r c t st =
     (let repeated = (t = Error \<and> c = lastErrorContent st \<and> length (messages st) > 0);
          st1 = (if repeated then st\<lparr>errorCount := errorCount st + 1\<rparr> else st)
      in if repeated \<and> mtype (last (messages st1)) = Some Error then
           (case last_error_index (messagesContainer st1) of
              Some i \<Rightarrow>
                st1\<lparr>messagesContainer :=
                      (messagesContainer st1)
                        [i := update_badge (errorCount st1) (messagesContainer st1 ! i)]\<rparr>
            | None \<Rightarrow> st1)
         else
           (let st2 = reset_error_tracking c t st1;
                m = \<lparr>role = r, content = c, mtype = Some t\<rparr>
            in renderMessage m (st2\<lparr>messages := messages st2 @ [m]\<rparr>)))"

definition clearHistory :: "pane \<Rightarrow> pane" where
  "clearHistory st =
     addMessage System ''Results cleared. Select a file to analyze.'' Normal
       (st\<lparr>messages := [], messagesContainer := []\<rparr>)"

text \<open>The panel after \<open>renderBody\<close>: the welcome message in an empty log.\<close>

definition renderBody :: pane where
  "renderBody =
     addMessage System ''Select a file to analyze for vulnerabilities.'' Normal
       \<lparr>messages = [], lastErrorContent = [], errorCount = 0, messagesContainer = []\<rparr>"

fun add_outputs :: "agent_output list \<Rightarrow> pane \<Rightarrow> pane" where
  "add_outputs [] st = st"
| "add_outputs (out # outs) st =
     add_outputs outs
       (addMessage System
          (case or_else (or_else (markdownOutput out) (message out)) (Some ''No content'') of
             Some s \<Rightarrow> s
           | None \<Rightarrow> ''No content'')
          Normal st)"

definition show_response :: "scan_data option \<Rightarrow> pane \<Rightarrow> pane" where
  "show_response data st =
     (case data of
        None \<Rightarrow> addMessage System ''Analysis completed with no specific output.'' Warning st
      | Some d \<Rightarrow>
          (case agentOutputs d of
             Some (out # outs) \<Rightarrow> add_outputs (out # outs) st
           | _ \<Rightarrow>
               (if truthy (dataMessage d) then
                  addMessage System (the (dataMessage d))
                    (if status d = Some ''error'' then Error else Normal) st
                else
                  addMessage System ''Analysis completed with no specific output.'' Warning st)))"

text \<open>
  \<open>handleAnalyze\<close>: the dialog result (\<open>None\<close> when the dialog is cancelled) and the
  request service are inputs; the result is the panel and the requests sent, in order.
\<close>

definition handleAnalyze ::
  "request_service \<Rightarrow> uri list option \<Rightarrow> pane \<Rightarrow> pane \<times> payload list" where
  "handleAnalyze request uris st =
     (case uris of
        None \<Rightarrow> (st, [])
      | Some [] \<Rightarrow> (st, [])
      | Some (u # rest) \<Rightarrow>
          (let path = fsPath u;
               st1 = addMessage System
                       (''Analysing '' @ path @ ''...'' @ nl @ nl @
                        ''(Generating Queries -> Slicing -> Explaining)'') Normal st;
               p = \<lparr>intent = ''scan'', filePath = path, language = ''c'',
                    userQuery = ''Analyze this file''\<rparr>
           in case request p of
                Inr data \<Rightarrow> (show_response data st1, [p])
              | Inl err \<Rightarrow>
                  (addMessage System
                     (''Analysis Failed: '' @ exn_message err @ nl @ nl @
                      ''Ensure backend is running at localhost:8000'') Error st1, [p])))"

subsection \<open>Second version\<close>

datatype view_type = Editor | Dashboard | Graph | Settings

record pane_v2 = pane +
  activeView :: view_type
  editorDisplay :: string
  dashboardDisplay :: string
  graphDisplay :: string

text \<open>
  Library functions of the workbench used by the second \<open>handleAnalyze\<close>:
  \<open>basename(URI.file(path))\<close>, \<open>URI.file(path).toString()\<close> and
  \<open>String.toLowerCase\<close>.
\<close>

record platform =
  basename_of :: "string \<Rightarrow> string"
  uri_toString :: "string \<Rightarrow> string"
  toLowerCase :: "string \<Rightarrow> string"

definition endsWith :: "string \<Rightarrow> string \<Rightarrow> bool" where
  "endsWith s suf = (length suf \<le> length s \<and> drop (length s - length suf) s = suf)"

text \<open>
  \<open>renderMessage(message, stream, loadingDots)\<close>. Streaming replaces the content chunk by
  chunk on a timer until the whole content is shown; the element records that it was
  streamed and holds the final content. The result is the panel and the index of the new
  element in the container.
\<close>

definition renderMessage_v2 ::
  "chat_message \<Rightarrow> bool \<Rightarrow> bool \<Rightarrow> pane_v2 \<Rightarrow> pane_v2 \<times> nat" where
  "renderMessage_v2 m stream dots st =
     (st\<lparr>messagesContainer := messagesContainer st @
           [\<lparr>classes = [''graphide-message'', ''animate-in'', role_class (role m)]
                         @ state_classes (mtype m),
             roleEl = Some (role_label m),
             contentMarkdown = content m,
             loadingDots = dots,
             streamed = (\<not> dots \<and> stream \<and> length (content m) > 20)\<rparr>]\<rparr>,
      length (messagesContainer st))"

text \<open>
  \<open>addMessageWithStreamOption\<close>. On a repeated error the last error element is
  returned; an existing badge gets the new text, and no badge is created.
\<close>

definition update_badge_v2 :: "nat \<Rightarrow> message_el \<Rightarrow> message_el" where
  "update_badge_v2 n lastEl =
     (case query_error_count lastEl of
        Some b \<Rightarrow> set_badge n lastEl
      | None \<Rightarrow> lastEl)"

definition reset_error_tracking_v2 :: "string \<Rightarrow> msg_type \<Rightarrow> pane_v2 \<Rightarrow> pane_v2" where
  "reset_error_tracking_v2 c t st =
     (if t = Error then st\<lparr>lastErrorContent := c, errorCount := 1\<rparr>
      else st\<lparr>lastErrorContent := [], errorCount := 0\<rparr>)"

definition push_and_render_v2 ::
  "role \<Rightarrow> string \<Rightarrow> msg_type \<Rightarrow> bool \<Rightarrow> bool \<Rightarrow> pane_v2 \<Rightarrow> pane_v2 \<times> nat" where
  "push_and_render_v2 r c t stream dots st =
     (let st2 = reset_error_tracking_v2 c t st;
          m = \<lparr>role = r, content = c, mtype = Some t\<rparr>
      in renderMessage_v2 m stream dots (st2\<lparr>messages := messages st2 @ [m]\<rparr>))"

definition addMessageWithStreamOption ::
  "role \<Rightarrow> string \<Rightarrow> msg_type \<Rightarrow> bool \<Rightarrow> bool \<Rightarrow> pane_v2 \<Rightarrow> pane_v2 \<times> nat" where
  "addMessageWithStreamOption r c t stream dots st =
     (let repeated = (t = Error \<and> c = lastErrorContent st \<and> length (messages st) > 0);
          st1 = (if repeated then st\<lparr>errorCount := errorCount st + 1\<rparr> else st)
      in if repeated \<and> mtype (last (messages st1)) = Some Error then
           (case last_error_index (messagesContainer st1) of
              Some i \<Rightarrow>
                (st1\<lparr>messagesContainer :=
                       (messagesContainer st1)
                         [i := update_badge_v2 (errorCount st1) (messagesContainer st1 ! i)]\<rparr>,
                 i)
            | None \<Rightarrow> push_and_render_v2 r c t stream dots st1)
         else push_and_render_v2 r c t stream dots st1)"

definition addMessage_v2 :: "role \<Rightarrow> string \<Rightarrow> msg_type \<Rightarrow> pane_v2 \<Rightarrow> pane_v2" where
  "addMessage_v2 r c t st = fst (addMessageWithStreamOption r c t False False st)"

definition clearHistory_v2 :: "pane_v2 \<Rightarrow> pane_v2" where
  "clearHistory_v2 st =
     addMessage_v2 System ''Results cleared. Select a file to analyze.'' Normal
       (st\<lparr>messages := [], messagesContainer := []\<rparr>)"

definition switchView :: "view_type \<Rightarrow> pane_v2 \<Rightarrow> pane_v2" where
  "switchView view st =
     (let st1 = st\<lparr>activeView := view, editorDisplay := ''none'',
                   dashboardDisplay := ''none'', graphDisplay := ''none''\<rparr>
      in case view of
           Editor \<Rightarrow> st1\<lparr>editorDisplay := ''flex''\<rparr>
         | Dashboard \<Rightarrow> st1\<lparr>dashboardDisplay := ''flex''\<rparr>
         | Graph \<Rightarrow> st1\<lparr>graphDisplay := ''block''\<rparr>
         | Settings \<Rightarrow>
             (addMessage_v2 System ''Settings view not implemented yet.'' Warning st1)
               \<lparr>editorDisplay := ''flex''\<rparr>)"

text \<open>The panel after the second version's \<open>renderBody\<close>.\<close>

definition renderBody_v2 :: pane_v2 where
  "renderBody_v2 =
     addMessage_v2 System ''Welcome to Graphide 2.0. Select a file to analyze.'' Normal
       \<lparr>messages = [], lastErrorContent = [], errorCount = 0, messagesContainer = [],
        activeView = Editor, editorDisplay = ''flex'', dashboardDisplay = ''none'',
        graphDisplay = ''none''\<rparr>"

definition remove_dots :: "nat \<Rightarrow> pane_v2 \<Rightarrow> pane_v2" where
  "remove_dots i st =
     (if i < length (messagesContainer st) then
        st\<lparr>messagesContainer :=
             (messagesContainer st)[i := (messagesContainer st ! i)\<lparr>loadingDots := False\<rparr>]\<rparr>
      else st)"

fun add_outputs_v2 :: "agent_output list \<Rightarrow> pane_v2 \<Rightarrow> pane_v2" where
  "add_outputs_v2 [] st = st"
| "add_outputs_v2 (out # outs) st =
     add_outputs_v2 outs
       (fst (addMessageWithStreamOption System
          (case or_else (or_else (markdownOutput out) (message out)) (Some ''No content'') of
             Some s \<Rightarrow> s
           | None \<Rightarrow> ''No content'')
          Normal True False st))"

definition show_response_v2 :: "scan_data option \<Rightarrow> pane_v2 \<Rightarrow> pane_v2" where
  "show_response_v2 data st =
     (case data of
        None \<Rightarrow>
          fst (addMessageWithStreamOption System
                 ''Analysis completed with no specific output.'' Warning False False st)
      | Some d \<Rightarrow>
          (case agentOutputs d of
             Some (out # outs) \<Rightarrow> add_outputs_v2 (out # outs) st
           | _ \<Rightarrow>
               (if truthy (dataMessage d) then
                  fst (addMessageWithStreamOption System (the (dataMessage d))
                         (if status d = Some ''error'' then Error else Normal) True False st)
                else
                  fst (addMessageWithStreamOption System
                         ''Analysis completed with no specific output.'' Warning False False st))))"

text \<open>
  The second \<open>handleAnalyze\<close>. Leaving another view for the editor goes through the
  editor's navigation button or directly through \<open>switchView\<close>; either way
  \<open>switchView('editor')\<close> runs (the button's highlight is not modelled).
\<close>

definition handleAnalyze_v2 ::
  "platform \<Rightarrow> request_service \<Rightarrow> uri list option \<Rightarrow> pane_v2 \<Rightarrow> pane_v2 \<times> payload list" where
  "handleAnalyze_v2 pf request uris st0 =
     (let st = (if activeView st0 \<noteq> Editor then switchView Editor st0 else st0) in
      case uris of
        None \<Rightarrow> (st, [])
      | Some [] \<Rightarrow> (st, [])
      | Some (u # rest) \<Rightarrow>
          (let path = fsPath u;
               fileName = basename_of pf path;
               isJson = endsWith (toLowerCase pf fileName) ''.json'';
               iconId = (if isJson then ''json'' else ''file'');
               chip = ''[$('' @ iconId @ '') '' @ fileName @ '']('' @ uri_toString pf path @ '')'';
               loadingMsgKey = ''Analysing '' @ chip;
               (st1, loadingEl) =
                 addMessageWithStreamOption System loadingMsgKey Normal False True st;
               p = \<lparr>intent = ''scan'', filePath = path, language = ''c'',
                    userQuery = ''Analyze this file''\<rparr>
           in case request p of
                Inr data \<Rightarrow> (show_response_v2 data (remove_dots loadingEl st1), [p])
              | Inl err \<Rightarrow>
                  (fst (addMessageWithStreamOption System
                          (''Analysis Failed: '' @ exn_message err @ nl @ nl @
                           ''Ensure backend is running at localhost:8000'')
                          Error False False (remove_dots loadingEl st1)), [p])))"

section \<open>The webview bridge and the React view\<close>

text \<open>
  \<open>GraphideWebviewProvider.handleMessage\<close>, case \<open>analyzeFiles\<close>, posts messages to
  the webview; the React \<open>App\<close> stores them and \<open>AnalysisView\<close> renders a status banner.
\<close>

record vulnerability_data =
  vid :: string
  severity :: string
  vtype :: string
  vfile :: string
  vline :: nat

record scan_response =
  rstatus :: string
  rmessage :: "string option"
  vulnerabilities :: "vulnerability_data list option"

datatype webview_message =
    AnalysisProgress nat nat string
  | AnalysisResult "scan_response option"
  | AnalysisError string

record analyze_files =
  afFilePath :: "string option"
  afLanguage :: "string option"

definition BACKEND_URL :: string where
  "BACKEND_URL = ''http://localhost:8000''"

text \<open>The result: the messages posted to the webview and the requests sent, in order.\<close>

definition handleMessage_analyzeFiles ::
  "(payload \<Rightarrow> exn + scan_response option) \<Rightarrow> analyze_files
     \<Rightarrow> webview_message list \<times> payload list" where
  "handleMessage_analyzeFiles request msg =
     (if \<not> truthy (afFilePath msg) then ([AnalysisError ''No file selected''], [])
      else
        (let progress = AnalysisProgress 1 5 ''Sending to backend...'';
             p = \<lparr>intent = ''scan'', filePath = the (afFilePath msg),
                  language = (case or_else (afLanguage msg) (Some ''c'') of
                                Some l \<Rightarrow> l | None \<Rightarrow> ''c''),
                  userQuery = ''Analyze this file''\<rparr>
         in case request p of
              Inr data \<Rightarrow> ([progress, AnalysisResult data], [p])
            | Inl err \<Rightarrow>
                ([progress,
                  AnalysisError (''Backend Error: '' @ exn_message err @ nl @ nl @
                                 ''Ensure the backend is running at '' @ BACKEND_URL)], [p])))"

text \<open>The status banner of \<open>AnalysisView\<close>: its class and the blocks it shows.\<close>

definition has_vulnerabilities :: "scan_response \<Rightarrow> bool" where
  "has_vulnerabilities r =
     (case vulnerabilities r of None \<Rightarrow> False | Some vs \<Rightarrow> length vs > 0)"

definition banner_class :: "scan_response \<Rightarrow> string" where
  "banner_class r =
     (if rstatus r = ''success'' \<and> has_vulnerabilities r then ''vulnerable''
      else if rstatus r = ''error'' then ''error''
      else ''clean'')"

datatype banner_block =
    FoundIssues nat
  | NoneDetected string
  | AnalysisErrorBlock string

definition banner_blocks :: "scan_response \<Rightarrow> banner_block list" where
  "banner_blocks r =
     (if rstatus r = ''success'' \<and> has_vulnerabilities r
        then [FoundIssues (length (the (vulnerabilities r)))] else [])
     @ (if rstatus r = ''success'' \<and> \<not> has_vulnerabilities r
        then [NoneDetected (case or_else (rmessage r) (Some ''No vulnerabilities detected'') of
                              Some s \<Rightarrow> s | None \<Rightarrow> ''No vulnerabilities detected'')]
        else [])
     @ (if rstatus r = ''error''
        then [AnalysisErrorBlock (case or_else (rmessage r) (Some ''Analysis error'') of
                                    Some s \<Rightarrow> s | None \<Rightarrow> ''Analysis error'')]
        else [])"

section \<open>The pipeline orchestrator\<close>

text \<open>
  Modelled from the spec: the orchestrator, that is the backend service that sequences the
  stages, retries them and passes patches on to be applied, is not among the sources; only
  its callers in the panel and the bridge are. Every definition of this section follows the
  specification's sections on the data model, the stage client interface, the
  orchestrator, retries and the external interfaces.
\<close>

subsection \<open>Stage results and retries\<close>

text \<open>
  Modelled from the spec: the error kinds of a stage client and the result of one call,
  which are not among the sources.
\<close>

datatype error_kind = Timeout | RateLimited | InvalidResponse | Unavailable | Rejected | Fatal

datatype 'a stage_result = Ok 'a | StageError error_kind

text \<open>
  Modelled from the spec: the orchestrator's classification of error kinds, which is not
  among the sources. \<open>Timeout\<close>, \<open>RateLimited\<close> and \<open>Unavailable\<close> are transient.
\<close>

definition transient :: "error_kind \<Rightarrow> bool" where
  "transient k = (k = Timeout \<or> k = RateLimited \<or> k = Unavailable)"

text \<open>
  Modelled from the spec: what the orchestrator retries, which is not among the sources: a
  stage result that is an error of a transient kind. A success and an error of any other
  kind are not.
\<close>

definition transient_failure :: "'a stage_result \<Rightarrow> bool" where
  "transient_failure r = (case r of Ok v \<Rightarrow> False | StageError e \<Rightarrow> transient e)"

text \<open>
  Modelled from the spec: the parameters of the orchestrator's retry policy, which is not
  among the sources.
\<close>

record retry_policy =
  max_attempts :: nat
  base_delay :: nat
  max_delay :: nat

text \<open>
  Modelled from the spec: the orchestrator's default retry policy, which is not among the
  sources: three attempts. The delays are parameters; the specification fixes none.
\<close>

definition default_policy :: "nat \<Rightarrow> nat \<Rightarrow> retry_policy" where
  "default_policy base cap = \<lparr>max_attempts = 3, base_delay = base, max_delay = cap\<rparr>"

text \<open>
  Modelled from the spec: the orchestrator's backoff schedule, which is not among the
  sources: bounded exponential, the delay after attempt \<open>k\<close> (counted from 0) doubles
  with each attempt and never exceeds the bound.
\<close>

definition backoff_delay :: "retry_policy \<Rightarrow> nat \<Rightarrow> nat" where
  "backoff_delay pol k = min (max_delay pol) (base_delay pol * 2 ^ k)"

text \<open>
  Modelled from the spec: the orchestrator's per-stage retry loop, which is not among the
  sources. \<open>call k\<close> is the stage client's result at attempt \<open>k\<close>; \<open>retries\<close> is the
  number of attempts still allowed after this one. A transient error is retried after the
  backoff delay while attempts remain; any other result is reported at once. The result is
  the reported stage result and the delays waited, one per retry.
\<close>

fun retry_loop ::
  "retry_policy \<Rightarrow> (nat \<Rightarrow> 'a stage_result) \<Rightarrow> nat \<Rightarrow> nat \<Rightarrow> 'a stage_result \<times> nat list" where
  "retry_loop pol call k 0 = (call k, [])"
| "retry_loop pol call k (Suc retries) =
     (case call k of
        Ok v \<Rightarrow> (Ok v, [])
      | StageError e \<Rightarrow>
          (if transient e then
             (case retry_loop pol call (Suc k) retries of
                (r, ds) \<Rightarrow> (r, backoff_delay pol k # ds))
           else (StageError e, [])))"

text \<open>
  Modelled from the spec: the orchestrator's stage invocation, which is not among the
  sources: the retry loop started at attempt 0 with the policy's number of attempts.
\<close>

definition invoke_with_retry ::
  "retry_policy \<Rightarrow> (nat \<Rightarrow> 'a stage_result) \<Rightarrow> 'a stage_result \<times> nat list" where
  "invoke_with_retry pol call = retry_loop pol call 0 (max_attempts pol - 1)"

text \<open>
  Modelled from the spec: the number of times the orchestrator called the stage client,
  which is not among the sources: once, and once more per retry.
\<close>

definition attempts_made :: "'a stage_result \<times> nat list \<Rightarrow> nat" where
  "attempts_made r = Suc (length (snd r))"

subsection \<open>Patch candidates and the verification gate\<close>

text \<open>
  Modelled from the spec: the orchestrator's patch candidate with its verification status,
  a patch as the detection stage proposes it, and the verifier's answer, which are not
  among the sources.
\<close>

datatype verification = Unverified | Valid | Invalid "string list"

record patch_candidate =
  findingId :: string
  originalCode :: string
  proposedCode :: string
  verification :: verification

record patch_proposal =
  forFinding :: string
  original :: string
  proposed :: string

datatype verdict = Accepted | Refused "string list"

text \<open>
  Modelled from the spec: the candidate the orchestrator makes of a patch proposed by the
  detection stage, which is not among the sources: it starts \<open>Unverified\<close>.
\<close>

definition propose :: "patch_proposal \<Rightarrow> patch_candidate" where
  "propose p =
     \<lparr>findingId = forFinding p, originalCode = original p, proposedCode = proposed p,
      verification = Unverified\<rparr>"

text \<open>
  Modelled from the spec: how the orchestrator records the verifier's answer for one
  candidate, which is not among the sources. An accepted patch becomes \<open>Valid\<close>, a refused
  one \<open>Invalid\<close> with the verifier's errors, and a verifier call that fails leaves the
  candidate as it was.
\<close>

definition record_verification :: "verdict stage_result \<Rightarrow> patch_candidate \<Rightarrow> patch_candidate" where
  "record_verification r c =
     (case r of
        Ok Accepted \<Rightarrow> c\<lparr>verification := Valid\<rparr>
      | Ok (Refused errs) \<Rightarrow> c\<lparr>verification := Invalid errs\<rparr>
      | StageError e \<Rightarrow> c)"

text \<open>
  Modelled from the spec: the orchestrator's verification stage, which is not among the
  sources: the verifier is called, with retries, for each candidate in turn.
  \<open>verifier i k\<close> is the verifier's result for candidate number \<open>i\<close> at attempt \<open>k\<close>.
\<close>

fun verify_from ::
  "retry_policy \<Rightarrow> (nat \<Rightarrow> nat \<Rightarrow> verdict stage_result) \<Rightarrow> nat \<Rightarrow> patch_candidate list
     \<Rightarrow> patch_candidate list" where
  "verify_from pol verifier i [] = []"
| "verify_from pol verifier i (c # cs) =
     record_verification (fst (invoke_with_retry pol (verifier i))) c
       # verify_from pol verifier (Suc i) cs"

text \<open>
  Modelled from the spec: the orchestrator's apply stage, which is not among the sources:
  the candidates handed to the patch-apply collaborator are those marked \<open>Valid\<close>.
\<close>

definition apply_stage :: "patch_candidate list \<Rightarrow> patch_candidate list" where
  "apply_stage cands = filter (\<lambda>c. verification c = Valid) cands"

text \<open>
  Modelled from the spec: the collaborators of a run, which are not among the sources:
  for each stage, the stage client's result at each attempt (for the verifier, per
  candidate), and the record the orchestrator keeps of a run.
\<close>

record collaborators =
  queryGen :: "nat \<Rightarrow> string stage_result"
  slicing :: "string \<Rightarrow> nat \<Rightarrow> string stage_result"
  detection :: "string \<Rightarrow> nat \<Rightarrow> patch_proposal list stage_result"
  enrichment :: "string \<Rightarrow> nat \<Rightarrow> unit stage_result"
  visualization :: "string \<Rightarrow> nat \<Rightarrow> unit stage_result"
  verifier :: "nat \<Rightarrow> nat \<Rightarrow> verdict stage_result"
  report :: "nat \<Rightarrow> unit stage_result"

datatype run_status = Completed | RunFailed

datatype apply_outcome = NotReached | ApplySkipped | Applied

record run_record =
  run_status :: run_status
  partial :: bool
  candidates :: "patch_candidate list"
  apply_calls :: "patch_candidate list"
  apply_outcome :: apply_outcome

definition failed_run :: run_record where
  "failed_run =
     \<lparr>run_status = RunFailed, partial = False, candidates = [], apply_calls = [],
      apply_outcome = NotReached\<rparr>"

definition is_error :: "'a stage_result \<Rightarrow> bool" where
  "is_error r = (case r of Ok v \<Rightarrow> False | StageError e \<Rightarrow> True)"

text \<open>
  Modelled from the spec: one run of the orchestrator, which is not among the sources.
  Query generation, slicing and detection are fatal when they fail; enrichment,
  visualization and the report only mark the run partial; the candidates proposed by
  detection are verified and the apply stage follows, skipped when no candidate is valid.
\<close>

definition run :: "retry_policy \<Rightarrow> collaborators \<Rightarrow> run_record" where
  "run pol cs =
     (case fst (invoke_with_retry pol (queryGen cs)) of
        StageError e \<Rightarrow> failed_run
      | Ok q \<Rightarrow>
          (case fst (invoke_with_retry pol (slicing cs q)) of
             StageError e \<Rightarrow> failed_run
           | Ok slice \<Rightarrow>
               (case fst (invoke_with_retry pol (detection cs slice)) of
                  StageError e \<Rightarrow> failed_run
                | Ok proposals \<Rightarrow>
                    (let enriched = fst (invoke_with_retry pol (enrichment cs slice));
                         diagram = fst (invoke_with_retry pol (visualization cs slice));
                         cands = verify_from pol (verifier cs) 0 (map propose proposals);
                         valid = apply_stage cands;
                         reported = fst (invoke_with_retry pol (report cs))
                     in \<lparr>run_status = Completed,
                         partial = (is_error enriched \<or> is_error diagram \<or> is_error reported),
                         candidates = cands,
                         apply_calls = valid,
                         apply_outcome = (if valid = [] then ApplySkipped else Applied)\<rparr>))))"

section \<open>Observations on the script's effects\<close>

text \<open>
  What a run added to the trace, the JSON values it wrote, the fields of a written entry,
  and counts of the project imports and deletions among a list of events.
\<close>

definition new_events :: "world \<Rightarrow> world \<Rightarrow> event list" where
  "new_events w w' = drop (length (trace w)) (trace w')"

fun written :: "event list \<Rightarrow> json list" where
  "written [] = []"
| "written (WriteOver f j # evs) = j # written evs"
| "written (ev # evs) = written evs"

definition field :: "json \<Rightarrow> string \<Rightarrow> json option" where
  "field j k = (case j of Obj fs \<Rightarrow> map_of fs k | _ \<Rightarrow> None)"

fun is_triple :: "json \<Rightarrow> bool" where
  "is_triple (Obj [(k1, Str c), (k2, Str f), (k3, Str l)]) =
     (k1 = ''parentFunctionCode'' \<and> k2 = ''filename'' \<and> k3 = ''lineNumber'')"
| "is_triple j = False"

definition is_delete :: "event \<Rightarrow> bool" where
  "is_delete ev = (case ev of DeleteProject n \<Rightarrow> True | _ \<Rightarrow> False)"

definition is_import :: "event \<Rightarrow> bool" where
  "is_import ev = (case ev of ImportCode p n \<Rightarrow> True | _ \<Rightarrow> False)"

definition deletions :: "event list \<Rightarrow> nat" where
  "deletions evs = length (filter is_delete evs)"

definition imports_of :: "event list \<Rightarrow> nat" where
  "imports_of evs = length (filter is_import evs)"

definition cleanup_events :: "world \<Rightarrow> event list" where
  "cleanup_events w = (if projects w projectName \<noteq> None then [DeleteProject projectName] else [])"

definition run_events :: "string \<Rightarrow> string \<Rightarrow> world \<Rightarrow> unique_functions \<Rightarrow> event list" where
  "run_events i out w uf =
     [Println (Analyzing i)] @ cleanup_events w @
     [Println ImportingCode, ImportCode i projectName, Println CpgLoaded,
      Println (QueriesLoaded (length queries)),
      WriteOver out (Arr (map snd uf)),
      Println (ResultsSaved out),
      Println (TotalUniqueFunctions (length uf))] @
     (if length uf = 0 then [Println NoVulnerabilitiesFound] else []) @
     [DeleteProject projectName]"

definition entries_of :: "json \<Rightarrow> json list" where
  "entries_of j = (case j of Arr es \<Rightarrow> es | _ \<Rightarrow> [])"

section \<open>Concrete inputs\<close>

text \<open>
  A graph of one function \<open>copy\<close> that calls \<open>strcpy\<close>; a call node inside it, and a call
  node whose enclosing method is not in the graph. \<open>graph_with name r\<close> is the graph on
  which the query \<open>name\<close> gives \<open>r\<close> and every other query finds nothing.
\<close>

definition empty_world :: world where
  "empty_world = \<lparr>projects = Map.empty, trace = []\<rparr>"

definition copy_method :: method_decl where
  "copy_method = \<lparr>fullName = ''copy'', mcode = ''void copy(char *d, char *s) { strcpy(d, s); }''\<rparr>"

definition strcpy_call :: stored_node where
  "strcpy_call =
     \<lparr>isMethod = False, code = Inr ''strcpy(d, s)'',
      location = Inr \<lparr>methodFullName = ''copy'', filename = ''a.c'',
                      lineNumberString = Some ''Some(1)''\<rparr>\<rparr>"

definition orphan_call :: stored_node where
  "orphan_call =
     \<lparr>isMethod = False, code = Inr ''strcpy(d, s)'',
      location = Inr \<lparr>methodFullName = ''<unknown>'', filename = ''a.c'',
                      lineNumberString = Some ''Some(1)''\<rparr>\<rparr>"

definition graph_with :: "string \<Rightarrow> exn + any_value \<Rightarrow> cpg" where
  "graph_with name r =
     \<lparr>methods = [copy_method],
      traversal = (\<lambda>q. if q = name then r else Inr (IterableOnce []))\<rparr>"

definition strcpy_graph :: cpg where
  "strcpy_graph = graph_with ''call-to-strcpy'' (Inr (IterableOnce [StoredNode strcpy_call]))"

definition orphan_graph :: cpg where
  "orphan_graph = graph_with ''call-to-strcpy'' (Inr (IterableOnce [StoredNode orphan_call]))"

definition clean_graph :: cpg where
  "clean_graph = graph_with ''call-to-strcpy'' (Inr (IterableOnce []))"

definition throwing_graph :: cpg where
  "throwing_graph = graph_with ''call-to-strtok'' (Inl (Throwable ''traversal failed''))"

definition env_with :: "cpg \<Rightarrow> env" where
  "env_with g = \<lparr>frontend = (\<lambda>p. Inr g), write_error = (\<lambda>f j. None)\<rparr>"

text \<open>A backend answer reporting an error, and one reporting success with nothing found.\<close>

definition error_response :: scan_response where
  "error_response = \<lparr>rstatus = ''error'', rmessage = Some ''Slicing failed'', vulnerabilities = None\<rparr>"

definition clean_response :: scan_response where
  "clean_response = \<lparr>rstatus = ''success'', rmessage = None, vulnerabilities = Some []\<rparr>"

text \<open>
  The request both versions of the panel send for a path; a panel of each version to which
  the same error was added twice after rendering; stage clients that always time out,
  always answer with an invalid response, or succeed at once; three patch proposals.
\<close>

definition scan_payload :: "string \<Rightarrow> payload" where
  "scan_payload path =
     \<lparr>intent = ''scan'', filePath = path, language = ''c'', userQuery = ''Analyze this file''\<rparr>"

definition twice_failed :: pane where
  "twice_failed =
     addMessage System ''Backend down'' Error
       (addMessage System ''Backend down'' Error renderBody)"

definition twice_failed_v2 :: pane_v2 where
  "twice_failed_v2 =
     addMessage_v2 System ''Backend down'' Error
       (addMessage_v2 System ''Backend down'' Error renderBody_v2)"

definition always_timeout :: "nat \<Rightarrow> unit stage_result" where
  "always_timeout k = StageError Timeout"

definition invalid_response :: "nat \<Rightarrow> unit stage_result" where
  "invalid_response k = StageError InvalidResponse"

definition succeeds_at_once :: "nat \<Rightarrow> unit stage_result" where
  "succeeds_at_once k = Ok ()"

text \<open>
  A stage client that times out and is then rejected, and one that is unavailable and
  then succeeds.
\<close>

definition timeout_then_rejected :: "nat \<Rightarrow> unit stage_result" where
  "timeout_then_rejected k = (if k = 0 then StageError Timeout else StageError Rejected)"

definition unavailable_then_ok :: "nat \<Rightarrow> unit stage_result" where
  "unavailable_then_ok k = (if k = 0 then StageError Unavailable else Ok ())"

definition three_proposals :: "patch_proposal list" where
  "three_proposals =
     [\<lparr>forFinding = ''F1'', original = ''strcpy(d, s);'', proposed = ''strlcpy(d, s, n);''\<rparr>,
      \<lparr>forFinding = ''F2'', original = ''gets(b);'', proposed = ''fgets(b, n, stdin'' \<rparr>,
      \<lparr>forFinding = ''F3'', original = ''scanf(f);'', proposed = ''scanf(f, x);''\<rparr>]"

text \<open>
  Collaborators for which every stage succeeds at once and the verifier accepts the first
  candidate, refuses the second and times out on the third at every attempt.
\<close>

definition demo_collaborators :: collaborators where
  "demo_collaborators =
     \<lparr>queryGen = (\<lambda>k. Ok ''cpg.method.callIn''),
      slicing = (\<lambda>q k. Ok ''slice''),
      detection = (\<lambda>s k. Ok three_proposals),
      enrichment = (\<lambda>s k. Ok ()),
      visualization = (\<lambda>s k. Ok ()),
      verifier = (\<lambda>i k. if i = 0 then Ok Accepted
                         else if i = 1 then Ok (Refused [''syntax error''])
                         else StageError Timeout),
      report = (\<lambda>k. Ok ())\<rparr>"

section \<open>Properties of the driver script\<close>

lemma is_triple_entry: "is_triple (entry p l)"
  by (simp add: entry_def)

lemma field_entry_parent: "field (entry p l) ''parentFunctionCode'' = Some (Str p)"
  by (simp add: entry_def field_def)

lemma field_entry_kind: "field (entry p l) ''kind'' = None"
  by (simp add: entry_def field_def)

lemma collect_node_cases:
  assumes "collect_node g uf n = Inr uf'"
  shows "uf' = uf \<or>
         (\<exists>l. location n = Inr l \<and> parentMethodCode g n \<noteq> ''N/A'' \<and>
              uf' = uf @ [(parentMethodCode g n, entry (parentMethodCode g n) l)])"
  using assms
  by (auto simp: collect_node_def Let_def split: if_splits sum.splits)

lemma collect_node_contains:
  assumes "collect_node g uf n = Inr uf'" and "parentMethodCode g n \<noteq> ''N/A''"
  shows "contains uf' (parentMethodCode g n)"
  using assms
  by (auto simp: collect_node_def Let_def contains_def split: if_splits sum.splits)

lemma collect_node_mono:
  assumes "collect_node g uf n = Inr uf'"
  shows "set uf \<subseteq> set uf'"
  using collect_node_cases [OF assms] by auto

lemma collect_node_entries:
  assumes "collect_node g uf n = Inr uf'" and "\<forall>kv \<in> set uf. \<exists>l. snd kv = entry (fst kv) l"
  shows "\<forall>kv \<in> set uf'. \<exists>l. snd kv = entry (fst kv) l"
  using collect_node_cases [OF assms(1)] assms(2) by fastforce

lemma collect_nodes_mono:
  "collect_nodes g uf ns = Inr uf' \<Longrightarrow> set uf \<subseteq> set uf'"
proof (induction ns arbitrary: uf)
  case Nil
  then show ?case by simp
next
  case (Cons n ns)
  then obtain uf1 where s: "collect_node g uf n = Inr uf1" and r: "collect_nodes g uf1 ns = Inr uf'"
    by (auto split: sum.splits)
  from collect_node_mono [OF s] Cons.IH [OF r] show ?case by blast
qed

lemma collect_nodes_entries:
  "collect_nodes g uf ns = Inr uf' \<Longrightarrow> \<forall>kv \<in> set uf. \<exists>l. snd kv = entry (fst kv) l
     \<Longrightarrow> \<forall>kv \<in> set uf'. \<exists>l. snd kv = entry (fst kv) l"
proof (induction ns arbitrary: uf)
  case Nil
  then show ?case by simp
next
  case (Cons n ns)
  then obtain uf1 where s: "collect_node g uf n = Inr uf1" and r: "collect_nodes g uf1 ns = Inr uf'"
    by (auto split: sum.splits)
  from collect_node_entries [OF s Cons.prems(2)] have "\<forall>kv \<in> set uf1. \<exists>l. snd kv = entry (fst kv) l" .
  from Cons.IH [OF r this] show ?case .
qed

lemma contains_mono: "set uf \<subseteq> set uf' \<Longrightarrow> contains uf k \<Longrightarrow> contains uf' k"
  by (auto simp: contains_def)

lemma collect_nodes_contains:
  "collect_nodes g uf ns = Inr uf' \<Longrightarrow> n \<in> set ns \<Longrightarrow> parentMethodCode g n \<noteq> ''N/A''
     \<Longrightarrow> contains uf' (parentMethodCode g n)"
proof (induction ns arbitrary: uf)
  case Nil
  then show ?case by simp
next
  case (Cons a ns)
  then obtain uf1 where s: "collect_node g uf a = Inr uf1" and r: "collect_nodes g uf1 ns = Inr uf'"
    by (auto split: sum.splits)
  show ?case
  proof (cases "n = a")
    case True
    with s Cons.prems(3) have "contains uf1 (parentMethodCode g n)"
      by (simp add: collect_node_contains)
    with collect_nodes_mono [OF r] show ?thesis by (blast intro: contains_mono)
  next
    case False
    with Cons.prems(2) have "n \<in> set ns" by simp
    from Cons.IH [OF r this Cons.prems(3)] show ?thesis .
  qed
qed

lemma run_query_mono: "run_query g uf q = Inr uf' \<Longrightarrow> set uf \<subseteq> set uf'"
  by (auto simp: run_query_def split: sum.splits dest: collect_nodes_mono)

lemma run_query_entries:
  "run_query g uf q = Inr uf' \<Longrightarrow> \<forall>kv \<in> set uf. \<exists>l. snd kv = entry (fst kv) l
     \<Longrightarrow> \<forall>kv \<in> set uf'. \<exists>l. snd kv = entry (fst kv) l"
  unfolding run_query_def
  by (cases "snd q g") (simp_all add: collect_nodes_entries)

lemma run_queries_mono: "run_queries g uf qs = Inr uf' \<Longrightarrow> set uf \<subseteq> set uf'"
proof (induction qs arbitrary: uf)
  case Nil
  then show ?case by simp
next
  case (Cons q qs)
  then obtain uf1 where s: "run_query g uf q = Inr uf1" and r: "run_queries g uf1 qs = Inr uf'"
    by (auto split: sum.splits)
  from run_query_mono [OF s] Cons.IH [OF r] show ?case by blast
qed

lemma run_queries_entries:
  "run_queries g uf qs = Inr uf' \<Longrightarrow> \<forall>kv \<in> set uf. \<exists>l. snd kv = entry (fst kv) l
     \<Longrightarrow> \<forall>kv \<in> set uf'. \<exists>l. snd kv = entry (fst kv) l"
proof (induction qs arbitrary: uf)
  case Nil
  then show ?case by simp
next
  case (Cons q qs)
  then obtain uf1 where s: "run_query g uf q = Inr uf1" and r: "run_queries g uf1 qs = Inr uf'"
    by (auto split: sum.splits)
  from run_query_entries [OF s Cons.prems(2)] have "\<forall>kv \<in> set uf1. \<exists>l. snd kv = entry (fst kv) l" .
  from Cons.IH [OF r this] show ?case .
qed

lemma run_queries_contains:
  "run_queries g uf qs = Inr uf' \<Longrightarrow> q \<in> set qs \<Longrightarrow> snd q g = Inr raw
     \<Longrightarrow> n \<in> set (resultList raw) \<Longrightarrow> parentMethodCode g n \<noteq> ''N/A''
     \<Longrightarrow> contains uf' (parentMethodCode g n)"
proof (induction qs arbitrary: uf)
  case Nil
  then show ?case by simp
next
  case (Cons a qs)
  then obtain uf1 where s: "run_query g uf a = Inr uf1" and r: "run_queries g uf1 qs = Inr uf'"
    by (auto split: sum.splits)
  show ?case
  proof (cases "q = a")
    case True
    with s Cons.prems(3) have "collect_nodes g uf (resultList raw) = Inr uf1"
      by (simp add: run_query_def)
    from collect_nodes_contains [OF this Cons.prems(4) Cons.prems(5)]
    have "contains uf1 (parentMethodCode g n)" .
    with run_queries_mono [OF r] show ?thesis by (blast intro: contains_mono)
  next
    case False
    with Cons.prems(2) have "q \<in> set qs" by simp
    from Cons.IH [OF r this Cons.prems(3) Cons.prems(4) Cons.prems(5)] show ?thesis .
  qed
qed

lemma collect_stored_mem: "StoredNode n \<in> set es \<Longrightarrow> n \<in> set (collect_stored es)"
  by (induction es rule: collect_stored.induct) auto

lemma length_queries: "length queries = 19"
  by (simp add: queries_def query_names_def)

lemma strcpy_query: "(''call-to-strcpy'', \<lambda>g. traversal g ''call-to-strcpy'') \<in> set queries"
  by (simp add: queries_def query_names_def)

lemma open_project_Inr:
  assumes "frontend en i = Inr g"
  shows "open_project en i w =
           (w\<lparr>projects := (projects w)(projectName \<mapsto> i),
              trace := trace w @ [Println (Analyzing i)] @ cleanup_events w @
                       [Println ImportingCode, ImportCode i projectName, Println CpgLoaded]\<rparr>,
            Inr g)"
  using assms
  by (simp add: open_project_def Let_def importCode_def println_def deleteProject_def
      cleanup_events_def)

lemma open_project_Inl:
  assumes "frontend en i = Inl e"
  shows "open_project en i w =
           (w\<lparr>projects := (projects w)(projectName := None),
              trace := trace w @ [Println (Analyzing i)] @ cleanup_events w @
                       [Println ImportingCode]\<rparr>,
            Inl e)"
  using assms
  by (cases "projects w projectName")
     (simp_all add: open_project_def Let_def importCode_def println_def deleteProject_def
        cleanup_events_def fun_upd_idem)

lemma new_events_append [simp]: "trace w' = trace w @ evs \<Longrightarrow> new_events w w' = evs"
  by (simp add: new_events_def)

lemma execute_completes:
  assumes "frontend en i = Inr g" and "run_queries g [] queries = Inr uf"
    and "write_error en out (Arr (map snd uf)) = None"
  shows "execute en i out w =
           (w\<lparr>projects := (projects w)(projectName := None),
              trace := trace w @ run_events i out w uf\<rparr>, Inr ())"
  using assms
  by (simp add: execute_def open_project_Inr Let_def write_over_def println_def
      deleteProject_def run_events_def)

lemma execute_Inr_cases:
  assumes "execute en i out w = (w', Inr u)"
  shows "\<exists>g uf. frontend en i = Inr g \<and> run_queries g [] queries = Inr uf \<and>
                write_error en out (Arr (map snd uf)) = None"
proof (cases "frontend en i")
  case (Inl e)
  with assms show ?thesis by (simp add: execute_def open_project_Inl)
next
  case (Inr g)
  with assms show ?thesis
    by (auto simp: execute_def open_project_Inr Let_def write_over_def
        split: sum.splits option.splits)
qed

lemma execute_Inl_cases:
  assumes "execute en i out w = (w', Inl e)"
  shows "(frontend en i = Inl e \<and>
            trace w' = trace w @ [Println (Analyzing i)] @ cleanup_events w @ [Println ImportingCode] \<and>
            projects w' = (projects w)(projectName := None)) \<or>
         (\<exists>g. frontend en i = Inr g \<and>
            trace w' = trace w @ [Println (Analyzing i)] @ cleanup_events w @
               [Println ImportingCode, ImportCode i projectName, Println CpgLoaded,
                Println (QueriesLoaded (length queries))] \<and>
            projects w' = (projects w)(projectName \<mapsto> i))"
proof (cases "frontend en i")
  case (Inl e')
  with assms show ?thesis by (auto simp: execute_def open_project_Inl)
next
  case (Inr g)
  with assms show ?thesis
    by (auto simp: execute_def open_project_Inr Let_def write_over_def println_def
        split: sum.splits option.splits)
qed

lemma run_strcpy_graph:
  "run_queries strcpy_graph [] queries =
     Inr [(''void copy(char *d, char *s) { strcpy(d, s); }'',
           Obj [(''parentFunctionCode'', Str ''void copy(char *d, char *s) { strcpy(d, s); }''),
                (''filename'', Str ''a.c''), (''lineNumber'', Str ''Some(1)'')])]"
  by (simp add: queries_def query_names_def strcpy_graph_def graph_with_def run_query_def
      resultList_def collect_node_def parentMethodCode_def getOrElse_def headOption_def
      strcpy_call_def copy_method_def contains_def entry_def Let_def)

lemma run_orphan_graph: "run_queries orphan_graph [] queries = Inr []"
  by (simp add: queries_def query_names_def orphan_graph_def graph_with_def run_query_def
      resultList_def collect_node_def parentMethodCode_def getOrElse_def headOption_def
      orphan_call_def copy_method_def contains_def entry_def Let_def)

lemma run_clean_graph: "run_queries clean_graph [] queries = Inr []"
  by (simp add: queries_def query_names_def clean_graph_def graph_with_def run_query_def
      resultList_def)

lemma run_throwing_graph:
  "run_queries throwing_graph [] queries = Inl (Throwable ''traversal failed'')"
  by (simp add: queries_def query_names_def throwing_graph_def graph_with_def run_query_def
      resultList_def)

lemma written_append: "written (xs @ ys) = written xs @ written ys"
  by (induction xs rule: written.induct) simp_all

lemma written_cleanup: "written (cleanup_events w) = []"
  by (simp add: cleanup_events_def)

lemma written_run_events: "written (run_events i out w uf) = [Arr (map snd uf)]"
  by (simp add: run_events_def written_append written_cleanup)

lemma no_vuln_run_events:
  "Println NoVulnerabilitiesFound \<in> set (run_events i out w uf) \<longleftrightarrow> uf = []"
  by (auto simp: run_events_def cleanup_events_def)

lemma imports_run_events: "imports_of (run_events i out w uf) = 1"
  by (simp add: run_events_def imports_of_def is_import_def cleanup_events_def)

lemma deletions_run_events:
  "deletions (run_events i out w uf) = (if projects w projectName = None then 1 else 2)"
  by (simp add: run_events_def deletions_def is_delete_def cleanup_events_def)

lemma last_run_events: "last (trace w @ run_events i out w uf) = DeleteProject projectName"
  by (simp add: run_events_def)

lemma execute_Inr_world:
  assumes "execute en i out w = (w', Inr u)"
  obtains g uf where "frontend en i = Inr g" and "run_queries g [] queries = Inr uf"
    and "trace w' = trace w @ run_events i out w uf"
    and "projects w' = (projects w)(projectName := None)"
proof -
  from execute_Inr_cases [OF assms] obtain g uf where
    f: "frontend en i = Inr g" and q: "run_queries g [] queries = Inr uf"
    and wr: "write_error en out (Arr (map snd uf)) = None" by blast
  from execute_completes [OF f q wr, of w] assms
  have "w' = w\<lparr>projects := (projects w)(projectName := None),
                 trace := trace w @ run_events i out w uf\<rparr>" by simp
  then have "trace w' = trace w @ run_events i out w uf"
    and "projects w' = (projects w)(projectName := None)" by simp_all
  with f q that show thesis by blast
qed

text \<open>
  Claim C6. A result node whose parent function cannot be resolved (for a method node,
  reading its code throws; for any other node, reading its location throws or no method of
  the graph has the location's full name) is given the parent code \<open>N/A\<close>; processing it
  raises no error and leaves the collected entries unchanged, so the outcome of the
  extraction is the same as if the node had not been in the result at all.
\<close>

theorem unresolved_parent_dropped:
  assumes "if isMethod node then (\<exists>e. code node = Inl e)
           else (case location node of
                   Inl e \<Rightarrow> True
                 | Inr loc \<Rightarrow> \<forall>m \<in> set (methods myCpg). fullName m \<noteq> methodFullName loc)"
  shows "parentMethodCode myCpg node = ''N/A'' \<and>
         collect_node myCpg uf node = Inr uf \<and>
         collect_nodes myCpg uf (pre @ node # post) = collect_nodes myCpg uf (pre @ post)"
proof -
  have na: "parentMethodCode myCpg node = ''N/A''"
  proof (cases "isMethod node")
    case True
    with assms show ?thesis
      by (auto simp: parentMethodCode_def getOrElse_def)
  next
    case False
    with assms have "case location node of
        Inl e \<Rightarrow> True
      | Inr loc \<Rightarrow> filter (\<lambda>m. fullName m = methodFullName loc) (methods myCpg) = []"
      by (auto split: sum.splits simp: filter_empty_conv)
    with False show ?thesis
      by (simp add: parentMethodCode_def getOrElse_def headOption_def split: sum.splits)
  qed
  then have step: "collect_node myCpg uf' node = Inr uf'" for uf'
    by (simp add: collect_node_def)
  have "collect_nodes myCpg uf (pre @ node # post) = collect_nodes myCpg uf (pre @ post)"
  proof (induction pre arbitrary: uf)
    case Nil
    show ?case by (simp add: step)
  next
    case (Cons a pre)
    show ?case by (cases "collect_node myCpg uf a") (simp_all add: Cons.IH)
  qed
  with na step show ?thesis by simp
qed

theorem unresolved_parent_dropped_witness:
  "\<not> isMethod orphan_call \<and>
   location orphan_call =
     Inr \<lparr>methodFullName = ''<unknown>'', filename = ''a.c'', lineNumberString = Some ''Some(1)''\<rparr> \<and>
   map fullName (methods orphan_graph) = [''copy''] \<and>
   parentMethodCode orphan_graph orphan_call = ''N/A'' \<and>
   collect_node orphan_graph [] orphan_call = Inr [] \<and>
   collect_nodes orphan_graph [] ([] @ orphan_call # [strcpy_call])
     = collect_nodes orphan_graph [] ([] @ [strcpy_call])"
proof -
  have h1: "\<not> isMethod orphan_call" by (simp add: orphan_call_def)
  have h2: "if isMethod orphan_call then (\<exists>e. code orphan_call = Inl e)
            else (case location orphan_call of
                    Inl e \<Rightarrow> True
                  | Inr loc \<Rightarrow>
                      \<forall>m \<in> set (methods orphan_graph). fullName m \<noteq> methodFullName loc)"
    by (simp add: orphan_call_def orphan_graph_def graph_with_def copy_method_def)
  have h3: "location orphan_call =
     Inr \<lparr>methodFullName = ''<unknown>'', filename = ''a.c'', lineNumberString = Some ''Some(1)''\<rparr>"
    by (simp add: orphan_call_def)
  have h4: "map fullName (methods orphan_graph) = [''copy'']"
    by (simp add: orphan_graph_def graph_with_def copy_method_def)
  from unresolved_parent_dropped [OF h2, of "[]" "[]" "[strcpy_call]"] h1 h3 h4
  show ?thesis by blast
qed

text \<open>
  Claim C4. Whenever the script completes, it has written exactly one JSON value, an array,
  and every entry of the array is an object of exactly three string fields: the parent
  function's code, the file name and the line number. Nothing else of the graph is written.
\<close>

theorem written_entries_are_triples:
  assumes "execute en i out w = (w', Inr u)"
  shows "\<exists>entries. written (new_events w w') = [Arr entries] \<and> (\<forall>e \<in> set entries. is_triple e)"
proof -
  from assms obtain g uf where q: "run_queries g [] queries = Inr uf"
    and t: "trace w' = trace w @ run_events i out w uf"
    by (rule execute_Inr_world)
  from run_queries_entries [OF q] have "\<forall>kv \<in> set uf. \<exists>l. snd kv = entry (fst kv) l" by simp
  then have "\<forall>e \<in> set (map snd uf). is_triple e"
    by (auto simp: is_triple_entry)
  moreover from t have "written (new_events w w') = [Arr (map snd uf)]"
    by (simp add: written_run_events)
  ultimately show ?thesis by blast
qed

lemma execute_strcpy_graph:
  "execute (env_with strcpy_graph) i out w =
     (w\<lparr>projects := (projects w)(projectName := None),
        trace := trace w @ run_events i out w
          [(''void copy(char *d, char *s) { strcpy(d, s); }'',
            Obj [(''parentFunctionCode'', Str ''void copy(char *d, char *s) { strcpy(d, s); }''),
                 (''filename'', Str ''a.c''), (''lineNumber'', Str ''Some(1)'')])]\<rparr>, Inr ())"
  by (rule execute_completes [where g = strcpy_graph])
     (simp_all add: env_with_def run_strcpy_graph)

theorem written_entries_are_triples_witness:
  "snd (execute (env_with strcpy_graph) ''/src/a.c'' ''/tmp/out.json'' empty_world) = Inr () \<and>
   (\<exists>entries.
      written (new_events empty_world
        (fst (execute (env_with strcpy_graph) ''/src/a.c'' ''/tmp/out.json'' empty_world)))
        = [Arr entries] \<and> (\<forall>e \<in> set entries. is_triple e))"
proof -
  have h: "execute (env_with strcpy_graph) ''/src/a.c'' ''/tmp/out.json'' empty_world =
      (fst (execute (env_with strcpy_graph) ''/src/a.c'' ''/tmp/out.json'' empty_world), Inr ())"
    by (simp add: execute_strcpy_graph)
  have "snd (execute (env_with strcpy_graph) ''/src/a.c'' ''/tmp/out.json'' empty_world) = Inr ()"
    by (simp add: execute_strcpy_graph)
  with written_entries_are_triples [OF h] show ?thesis by blast
qed

text \<open>
  Claim C3 as stated fails. On a graph whose \<open>call-to-strcpy\<close> query flags a call inside
  the function \<open>copy\<close>, the script completes and writes one entry; the query's name is
  bound in the loop and never used, so no written entry has a \<open>kind\<close> field naming the
  rule.
\<close>

theorem strcpy_finding_has_no_kind_counterexample:
  "snd (execute (env_with strcpy_graph) ''/src/a.c'' ''/tmp/out.json'' empty_world) = Inr () \<and>
   traversal strcpy_graph ''call-to-strcpy'' = Inr (IterableOnce [StoredNode strcpy_call]) \<and>
   written (trace (fst (execute (env_with strcpy_graph) ''/src/a.c'' ''/tmp/out.json'' empty_world)))
     = [Arr [Obj [(''parentFunctionCode'', Str ''void copy(char *d, char *s) { strcpy(d, s); }''),
                  (''filename'', Str ''a.c''), (''lineNumber'', Str ''Some(1)'')]]] \<and>
   \<not> (\<exists>e \<in> set (concat (map entries_of
          (written (trace (fst (execute (env_with strcpy_graph) ''/src/a.c'' ''/tmp/out.json''
             empty_world)))))).
        field e ''kind'' = Some (Str ''call-to-strcpy''))"
proof -
  have "traversal strcpy_graph ''call-to-strcpy'' = Inr (IterableOnce [StoredNode strcpy_call])"
    by (simp add: strcpy_graph_def graph_with_def)
  then show ?thesis
    by (simp add: execute_strcpy_graph empty_world_def written_run_events entries_of_def
        field_def)
qed

text \<open>
  Claim C3, amended. When the script completes and the \<open>call-to-strcpy\<close> query has flagged
  a node whose parent function resolves, the written array has an entry whose
  \<open>parentFunctionCode\<close> is the code of that function. Entries identify the enclosing
  function, not the rule: none has a \<open>kind\<close> field.
\<close>

theorem flagged_function_is_reported:
  assumes "execute en i out w = (w', Inr u)"
    and "frontend en i = Inr g"
    and "traversal g ''call-to-strcpy'' = Inr (IterableOnce els)"
    and "StoredNode n \<in> set els"
    and "parentMethodCode g n \<noteq> ''N/A''"
  shows "\<exists>entries. written (new_events w w') = [Arr entries] \<and>
           (\<exists>e \<in> set entries.
              field e ''parentFunctionCode'' = Some (Str (parentMethodCode g n))) \<and>
           (\<forall>e \<in> set entries. field e ''kind'' = None)"
proof -
  from assms(1) obtain g' uf where f: "frontend en i = Inr g'"
    and q': "run_queries g' [] queries = Inr uf"
    and t: "trace w' = trace w @ run_events i out w uf"
    by (rule execute_Inr_world)
  from f assms(2) have "g' = g" by simp
  with q' have q: "run_queries g [] queries = Inr uf" by simp
  have inv: "\<forall>kv \<in> set uf. \<exists>l. snd kv = entry (fst kv) l"
    using run_queries_entries [OF q] by simp
  have "n \<in> set (resultList (IterableOnce els))"
    using assms(4) by (simp add: resultList_def collect_stored_mem)
  with run_queries_contains [OF q strcpy_query, of "IterableOnce els" n] assms(3) assms(5)
  have "contains uf (parentMethodCode g n)" by simp
  then obtain v where kv: "(parentMethodCode g n, v) \<in> set uf"
    by (auto simp: contains_def)
  with inv obtain l where "v = entry (parentMethodCode g n) l" by fastforce
  with kv have "\<exists>e \<in> set (map snd uf).
      field e ''parentFunctionCode'' = Some (Str (parentMethodCode g n))"
    by (force simp: field_entry_parent)
  moreover from inv have "\<forall>e \<in> set (map snd uf). field e ''kind'' = None"
    by (auto simp: field_entry_kind)
  moreover from t have "written (new_events w w') = [Arr (map snd uf)]"
    by (simp add: written_run_events)
  ultimately show ?thesis by blast
qed

theorem flagged_function_is_reported_witness:
  "snd (execute (env_with strcpy_graph) ''/src/a.c'' ''/tmp/out.json'' empty_world) = Inr () \<and>
   frontend (env_with strcpy_graph) ''/src/a.c'' = Inr strcpy_graph \<and>
   traversal strcpy_graph ''call-to-strcpy'' = Inr (IterableOnce [StoredNode strcpy_call]) \<and>
   parentMethodCode strcpy_graph strcpy_call = ''void copy(char *d, char *s) { strcpy(d, s); }'' \<and>
   (\<exists>entries.
      written (new_events empty_world
        (fst (execute (env_with strcpy_graph) ''/src/a.c'' ''/tmp/out.json'' empty_world)))
        = [Arr entries] \<and>
      (\<exists>e \<in> set entries.
         field e ''parentFunctionCode'' = Some (Str (parentMethodCode strcpy_graph strcpy_call))) \<and>
      (\<forall>e \<in> set entries. field e ''kind'' = None))"
proof -
  have h1: "execute (env_with strcpy_graph) ''/src/a.c'' ''/tmp/out.json'' empty_world =
      (fst (execute (env_with strcpy_graph) ''/src/a.c'' ''/tmp/out.json'' empty_world), Inr ())"
    by (simp add: execute_strcpy_graph)
  have h2: "frontend (env_with strcpy_graph) ''/src/a.c'' = Inr strcpy_graph"
    by (simp add: env_with_def)
  have h3: "traversal strcpy_graph ''call-to-strcpy'' = Inr (IterableOnce [StoredNode strcpy_call])"
    by (simp add: strcpy_graph_def graph_with_def)
  have h4: "StoredNode strcpy_call \<in> set [StoredNode strcpy_call]" by simp
  have p: "parentMethodCode strcpy_graph strcpy_call
             = ''void copy(char *d, char *s) { strcpy(d, s); }''"
    by (simp add: parentMethodCode_def strcpy_graph_def graph_with_def strcpy_call_def
        copy_method_def getOrElse_def headOption_def)
  then have h5: "parentMethodCode strcpy_graph strcpy_call \<noteq> ''N/A''" by simp
  have s: "snd (execute (env_with strcpy_graph) ''/src/a.c'' ''/tmp/out.json'' empty_world) = Inr ()"
    by (simp add: execute_strcpy_graph)
  from flagged_function_is_reported [OF h1 h2 h3 h4 h5] s h2 h3 p
  show ?thesis by blast
qed

lemma execute_throwing_graph:
  "execute (env_with throwing_graph) i out w =
     (w\<lparr>projects := (projects w)(projectName \<mapsto> i),
        trace := trace w @ [Println (Analyzing i)] @ cleanup_events w @
                 [Println ImportingCode, ImportCode i projectName, Println CpgLoaded,
                  Println (QueriesLoaded (length queries))]\<rparr>,
      Inl (Throwable ''traversal failed''))"
  by (simp add: execute_def open_project_Inr [where g = throwing_graph] env_with_def
      run_throwing_graph println_def)

text \<open>
  Claim C2 as stated fails. The final \<open>deleteProject\<close> is the last statement of the
  script and nothing guards it: when a query throws, the run has imported once and deleted
  nothing, and the project stays in the workspace.
\<close>

theorem project_leaks_when_query_throws_counterexample:
  "snd (execute (env_with throwing_graph) ''/src/a.c'' ''/tmp/out.json'' empty_world)
     = Inl (Throwable ''traversal failed'') \<and>
   imports_of (trace (fst (execute (env_with throwing_graph) ''/src/a.c'' ''/tmp/out.json''
     empty_world))) = 1 \<and>
   deletions (trace (fst (execute (env_with throwing_graph) ''/src/a.c'' ''/tmp/out.json''
     empty_world))) = 0 \<and>
   projects (fst (execute (env_with throwing_graph) ''/src/a.c'' ''/tmp/out.json'' empty_world))
     projectName = Some ''/src/a.c''"
  by (simp add: execute_throwing_graph empty_world_def cleanup_events_def imports_of_def
      deletions_def is_import_def is_delete_def)

lemma imports_cleanup: "imports_of (cleanup_events w) = 0"
  by (simp add: imports_of_def cleanup_events_def is_import_def)

lemma deletions_cleanup:
  "deletions (cleanup_events w) = (if projects w projectName = None then 0 else 1)"
  by (simp add: deletions_def cleanup_events_def is_delete_def)

lemma execute_Inl_world:
  assumes "execute en i out w = (w', Inl e)" and "frontend en i = Inr g"
  shows "trace w' = trace w @ [Println (Analyzing i)] @ cleanup_events w @
               [Println ImportingCode, ImportCode i projectName, Println CpgLoaded,
                Println (QueriesLoaded (length queries))] \<and>
         projects w' = (projects w)(projectName \<mapsto> i)"
  using execute_Inl_cases [OF assms(1)] assms(2) by auto

text \<open>
  Claim C2, amended. A run that completes without an exception imports once and deletes
  the project it imported exactly once, as its last action, leaving no project; its
  deletions equal its imports when no project was left over from an earlier run (a leftover
  costs one more deletion, in the start-of-run cleanup). A run in which a stage throws after
  the import does not delete its project: it remains in the workspace.
\<close>

theorem project_deleted_once_when_run_completes:
  assumes "execute en i out w = (w', r)"
  shows "(r = Inr () \<longrightarrow>
            imports_of (new_events w w') = 1 \<and>
            deletions (new_events w w') = (if projects w projectName = None then 1 else 2) \<and>
            last (trace w') = DeleteProject projectName \<and>
            projects w' projectName = None) \<and>
         (\<forall>e g. r = Inl e \<and> frontend en i = Inr g \<longrightarrow>
            imports_of (new_events w w') = 1 \<and>
            deletions (new_events w w') = (if projects w projectName = None then 0 else 1) \<and>
            projects w' projectName = Some i)"
proof (intro conjI impI allI)
  assume "r = Inr ()"
  with assms have ex: "execute en i out w = (w', Inr ())" by simp
  from ex obtain g uf where t: "trace w' = trace w @ run_events i out w uf"
    and p: "projects w' = (projects w)(projectName := None)"
    by (rule execute_Inr_world)
  from t show "imports_of (new_events w w') = 1" by (simp add: imports_run_events)
  from t show "deletions (new_events w w') = (if projects w projectName = None then 1 else 2)"
    by (simp add: deletions_run_events)
  from t show "last (trace w') = DeleteProject projectName" by (simp add: last_run_events)
  from p show "projects w' projectName = None" by simp
next
  fix e g
  assume a: "r = Inl e \<and> frontend en i = Inr g"
  with assms have ex: "execute en i out w = (w', Inl e)" by simp
  from execute_Inl_world [OF ex] a
  have t: "trace w' = trace w @ [Println (Analyzing i)] @ cleanup_events w @
               [Println ImportingCode, ImportCode i projectName, Println CpgLoaded,
                Println (QueriesLoaded (length queries))]"
    and p: "projects w' = (projects w)(projectName \<mapsto> i)" by blast+
  from t have n: "new_events w w' = [Println (Analyzing i)] @ cleanup_events w @
               [Println ImportingCode, ImportCode i projectName, Println CpgLoaded,
                Println (QueriesLoaded (length queries))]" by simp
  show "imports_of (new_events w w') = 1"
    unfolding n by (simp add: imports_of_def is_import_def cleanup_events_def)
  show "deletions (new_events w w') = (if projects w projectName = None then 0 else 1)"
    unfolding n by (simp add: deletions_def is_delete_def cleanup_events_def)
  from p show "projects w' projectName = Some i" by simp
qed

lemma execute_clean_graph:
  "execute (env_with clean_graph) i out w =
     (w\<lparr>projects := (projects w)(projectName := None),
        trace := trace w @ run_events i out w []\<rparr>, Inr ())"
  by (rule execute_completes [where g = clean_graph])
     (simp_all add: env_with_def run_clean_graph)

lemma execute_orphan_graph:
  "execute (env_with orphan_graph) i out w =
     (w\<lparr>projects := (projects w)(projectName := None),
        trace := trace w @ run_events i out w []\<rparr>, Inr ())"
  by (rule execute_completes [where g = orphan_graph])
     (simp_all add: env_with_def run_orphan_graph)

theorem project_deleted_once_when_run_completes_witness:
  "snd (execute (env_with clean_graph) ''/src/a.c'' ''/tmp/out.json'' empty_world) = Inr () \<and>
   imports_of (new_events empty_world
     (fst (execute (env_with clean_graph) ''/src/a.c'' ''/tmp/out.json'' empty_world))) = 1 \<and>
   deletions (new_events empty_world
     (fst (execute (env_with clean_graph) ''/src/a.c'' ''/tmp/out.json'' empty_world))) = 1 \<and>
   last (trace (fst (execute (env_with clean_graph) ''/src/a.c'' ''/tmp/out.json'' empty_world)))
     = DeleteProject projectName \<and>
   projects (fst (execute (env_with clean_graph) ''/src/a.c'' ''/tmp/out.json'' empty_world))
     projectName = None \<and>
   snd (execute (env_with throwing_graph) ''/src/a.c'' ''/tmp/out.json'' empty_world)
     = Inl (Throwable ''traversal failed'') \<and>
   frontend (env_with throwing_graph) ''/src/a.c'' = Inr throwing_graph \<and>
   imports_of (new_events empty_world
     (fst (execute (env_with throwing_graph) ''/src/a.c'' ''/tmp/out.json'' empty_world))) = 1 \<and>
   deletions (new_events empty_world
     (fst (execute (env_with throwing_graph) ''/src/a.c'' ''/tmp/out.json'' empty_world))) = 0 \<and>
   projects (fst (execute (env_with throwing_graph) ''/src/a.c'' ''/tmp/out.json'' empty_world))
     projectName = Some ''/src/a.c''"
proof -
  have c: "execute (env_with clean_graph) ''/src/a.c'' ''/tmp/out.json'' empty_world =
      (fst (execute (env_with clean_graph) ''/src/a.c'' ''/tmp/out.json'' empty_world), Inr ())"
    by (simp add: execute_clean_graph)
  have t: "execute (env_with throwing_graph) ''/src/a.c'' ''/tmp/out.json'' empty_world =
      (fst (execute (env_with throwing_graph) ''/src/a.c'' ''/tmp/out.json'' empty_world),
       Inl (Throwable ''traversal failed''))"
    by (simp add: execute_throwing_graph)
  have f: "frontend (env_with throwing_graph) ''/src/a.c'' = Inr throwing_graph"
    by (simp add: env_with_def)
  have e: "projects empty_world projectName = None" by (simp add: empty_world_def)
  have sc: "snd (execute (env_with clean_graph) ''/src/a.c'' ''/tmp/out.json'' empty_world) = Inr ()"
    by (simp add: execute_clean_graph)
  have st: "snd (execute (env_with throwing_graph) ''/src/a.c'' ''/tmp/out.json'' empty_world)
     = Inl (Throwable ''traversal failed'')"
    by (simp add: execute_throwing_graph)
  from project_deleted_once_when_run_completes [OF c] project_deleted_once_when_run_completes [OF t]
    f e sc st
  show ?thesis by simp
qed

text \<open>
  Claim C5 as stated fails. The project name is the constant \<open>vuln_scan_final\<close> and the
  script deletes an existing project of that name before importing: a second open for the
  same path deletes the project of the first, and the workspace holds one project, not two.
\<close>

theorem second_open_deletes_first_project_counterexample:
  "new_events
     (fst (open_project (env_with clean_graph) ''/src/a.c'' empty_world))
     (fst (open_project (env_with clean_graph) ''/src/a.c''
        (fst (open_project (env_with clean_graph) ''/src/a.c'' empty_world))))
     = [Println (Analyzing ''/src/a.c''), DeleteProject projectName, Println ImportingCode,
        ImportCode ''/src/a.c'' projectName, Println CpgLoaded] \<and>
   dom (projects (fst (open_project (env_with clean_graph) ''/src/a.c''
        (fst (open_project (env_with clean_graph) ''/src/a.c'' empty_world))))) = {projectName}"
  by (simp add: open_project_Inr [where g = clean_graph] env_with_def empty_world_def
      cleanup_events_def)

text \<open>
  Claim C5, amended. Opening is not idempotent in that every open performs a fresh import.
  All opens share the one fixed project name, so a second open deletes the project the
  first one created and imports again in its place: the workspace afterwards holds the
  same single project as after the first open.
\<close>

theorem every_open_imports_and_replaces:
  assumes "frontend en p = Inr g"
    and "open_project en p w = (w1, r1)"
    and "open_project en p w1 = (w2, r2)"
  shows "r1 = Inr g \<and> r2 = Inr g \<and>
         imports_of (new_events w w1) = 1 \<and> imports_of (new_events w1 w2) = 1 \<and>
         deletions (new_events w1 w2) = 1 \<and>
         DeleteProject projectName \<in> set (new_events w1 w2) \<and>
         projects w1 = (projects w)(projectName \<mapsto> p) \<and>
         projects w2 = projects w1"
proof -
  from open_project_Inr [OF assms(1), of w] assms(2)
  have r1: "r1 = Inr g"
    and t1: "trace w1 = trace w @ [Println (Analyzing p)] @ cleanup_events w @
                       [Println ImportingCode, ImportCode p projectName, Println CpgLoaded]"
    and p1: "projects w1 = (projects w)(projectName \<mapsto> p)" by auto
  from open_project_Inr [OF assms(1), of w1] assms(3)
  have r2: "r2 = Inr g"
    and t2: "trace w2 = trace w1 @ [Println (Analyzing p)] @ cleanup_events w1 @
                       [Println ImportingCode, ImportCode p projectName, Println CpgLoaded]"
    and p2: "projects w2 = (projects w1)(projectName \<mapsto> p)" by auto
  from p1 have c: "cleanup_events w1 = [DeleteProject projectName]"
    by (simp add: cleanup_events_def)
  from t1 have "imports_of (new_events w w1) = 1"
    by (simp add: imports_of_def is_import_def cleanup_events_def)
  moreover from t2 c have "imports_of (new_events w1 w2) = 1"
    by (simp add: imports_of_def is_import_def)
  moreover from t2 c have "deletions (new_events w1 w2) = 1"
    by (simp add: deletions_def is_delete_def)
  moreover from t2 c have "DeleteProject projectName \<in> set (new_events w1 w2)" by simp
  moreover from p1 p2 have "projects w2 = projects w1" by simp
  ultimately show ?thesis using r1 r2 p1 by blast
qed

theorem every_open_imports_and_replaces_witness:
  "frontend (env_with clean_graph) ''/src/a.c'' = Inr clean_graph \<and>
   snd (open_project (env_with clean_graph) ''/src/a.c'' empty_world) = Inr clean_graph \<and>
   imports_of (new_events empty_world
      (fst (open_project (env_with clean_graph) ''/src/a.c'' empty_world))) = 1 \<and>
   imports_of (new_events
      (fst (open_project (env_with clean_graph) ''/src/a.c'' empty_world))
      (fst (open_project (env_with clean_graph) ''/src/a.c''
         (fst (open_project (env_with clean_graph) ''/src/a.c'' empty_world))))) = 1 \<and>
   DeleteProject projectName \<in> set (new_events
      (fst (open_project (env_with clean_graph) ''/src/a.c'' empty_world))
      (fst (open_project (env_with clean_graph) ''/src/a.c''
         (fst (open_project (env_with clean_graph) ''/src/a.c'' empty_world))))) \<and>
   projects (fst (open_project (env_with clean_graph) ''/src/a.c''
         (fst (open_project (env_with clean_graph) ''/src/a.c'' empty_world))))
     = projects (fst (open_project (env_with clean_graph) ''/src/a.c'' empty_world))"
proof -
  have f: "frontend (env_with clean_graph) ''/src/a.c'' = Inr clean_graph"
    by (simp add: env_with_def)
  have o1: "open_project (env_with clean_graph) ''/src/a.c'' empty_world =
      (fst (open_project (env_with clean_graph) ''/src/a.c'' empty_world),
       snd (open_project (env_with clean_graph) ''/src/a.c'' empty_world))" by simp
  have o2: "open_project (env_with clean_graph) ''/src/a.c''
        (fst (open_project (env_with clean_graph) ''/src/a.c'' empty_world)) =
      (fst (open_project (env_with clean_graph) ''/src/a.c''
         (fst (open_project (env_with clean_graph) ''/src/a.c'' empty_world))),
       snd (open_project (env_with clean_graph) ''/src/a.c''
         (fst (open_project (env_with clean_graph) ''/src/a.c'' empty_world))))" by simp
  from every_open_imports_and_replaces [OF f o1 o2] f show ?thesis by blast
qed

text \<open>
  Claim C7 as stated fails. A run on a graph whose \<open>call-to-strcpy\<close> query flags a call
  that cannot be attributed to a function gives exactly the response of a run on a graph
  where no query flags anything: the same result, an empty array written, and the line
  \<open>No vulnerabilities found\<close>.
\<close>

theorem unresolved_hits_reported_as_clean_counterexample:
  "traversal orphan_graph ''call-to-strcpy'' = Inr (IterableOnce [StoredNode orphan_call]) \<and>
   traversal clean_graph ''call-to-strcpy'' = Inr (IterableOnce []) \<and>
   execute (env_with orphan_graph) ''/src/a.c'' ''/tmp/out.json'' empty_world
     = execute (env_with clean_graph) ''/src/a.c'' ''/tmp/out.json'' empty_world \<and>
   snd (execute (env_with orphan_graph) ''/src/a.c'' ''/tmp/out.json'' empty_world) = Inr () \<and>
   written (trace (fst (execute (env_with orphan_graph) ''/src/a.c'' ''/tmp/out.json''
     empty_world))) = [Arr []] \<and>
   Println NoVulnerabilitiesFound \<in>
     set (trace (fst (execute (env_with orphan_graph) ''/src/a.c'' ''/tmp/out.json'' empty_world)))"
proof -
  have "traversal orphan_graph ''call-to-strcpy'' = Inr (IterableOnce [StoredNode orphan_call])"
    by (simp add: orphan_graph_def graph_with_def)
  moreover have "traversal clean_graph ''call-to-strcpy'' = Inr (IterableOnce [])"
    by (simp add: clean_graph_def graph_with_def)
  ultimately show ?thesis
    by (simp add: execute_orphan_graph execute_clean_graph empty_world_def written_run_events
        no_vuln_run_events)
qed

lemma banner_error:
  "rstatus resp = ''error'' \<Longrightarrow>
     banner_class resp = ''error'' \<and>
     banner_blocks resp =
       [AnalysisErrorBlock (case or_else (rmessage resp) (Some ''Analysis error'') of
                              Some s \<Rightarrow> s | None \<Rightarrow> ''Analysis error'')]"
  by (simp add: banner_class_def banner_blocks_def)

lemma banner_clean:
  "rstatus resp = ''success'' \<Longrightarrow> \<not> has_vulnerabilities resp \<Longrightarrow>
     banner_class resp = ''clean'' \<and>
     banner_blocks resp =
       [NoneDetected (case or_else (rmessage resp) (Some ''No vulnerabilities detected'') of
                        Some s \<Rightarrow> s | None \<Rightarrow> ''No vulnerabilities detected'')]"
  by (simp add: banner_class_def banner_blocks_def)

text \<open>
  Claim C7, amended. A run of the script that aborts with an exception writes no result and
  does not print \<open>No vulnerabilities found\<close>; a run that completes writes one array and
  prints that line exactly when the array is empty; and the status banner is \<open>error\<close>
  for a response of status \<open>error\<close> and \<open>clean\<close> for a response of status
  \<open>success\<close> without vulnerabilities. So an aborted run and a reported error are
  distinguishable from an empty result. Flagged nodes whose parent function cannot be
  resolved are not part of this: they are dropped, and such a run is reported as an empty
  result.
\<close>

theorem abort_distinct_from_empty_result:
  assumes "execute en i out w = (w', r)"
  shows "(\<forall>e. r = Inl e \<longrightarrow>
            written (new_events w w') = [] \<and>
            Println NoVulnerabilitiesFound \<notin> set (new_events w w')) \<and>
         (r = Inr () \<longrightarrow>
            (\<exists>entries. written (new_events w w') = [Arr entries] \<and>
               (Println NoVulnerabilitiesFound \<in> set (new_events w w') \<longleftrightarrow> entries = []))) \<and>
         (\<forall>resp. rstatus resp = ''error'' \<longrightarrow> banner_class resp = ''error'') \<and>
         (\<forall>resp. rstatus resp = ''success'' \<and> \<not> has_vulnerabilities resp \<longrightarrow>
            banner_class resp = ''clean'')"
proof (intro conjI impI allI)
  fix e
  assume "r = Inl e"
  with assms have ex: "execute en i out w = (w', Inl e)" by simp
  from execute_Inl_cases [OF ex]
  show "written (new_events w w') = []"
    by (auto simp: written_append written_cleanup)
  from execute_Inl_cases [OF ex]
  show "Println NoVulnerabilitiesFound \<notin> set (new_events w w')"
    by (auto simp: cleanup_events_def)
next
  assume "r = Inr ()"
  with assms have ex: "execute en i out w = (w', Inr ())" by simp
  from ex obtain g uf where t: "trace w' = trace w @ run_events i out w uf"
    by (rule execute_Inr_world)
  then have "written (new_events w w') = [Arr (map snd uf)]"
    and "Println NoVulnerabilitiesFound \<in> set (new_events w w') \<longleftrightarrow> map snd uf = []"
    by (simp_all add: written_run_events no_vuln_run_events)
  then show "\<exists>entries. written (new_events w w') = [Arr entries] \<and>
               (Println NoVulnerabilitiesFound \<in> set (new_events w w') \<longleftrightarrow> entries = [])"
    by blast
next
  fix resp :: scan_response
  assume "rstatus resp = ''error''"
  then show "banner_class resp = ''error''" by (simp add: banner_error)
next
  fix resp :: scan_response
  assume "rstatus resp = ''success'' \<and> \<not> has_vulnerabilities resp"
  then show "banner_class resp = ''clean''" by (simp add: banner_clean)
qed

theorem abort_distinct_from_empty_result_witness:
  "snd (execute (env_with throwing_graph) ''/src/a.c'' ''/tmp/out.json'' empty_world)
     = Inl (Throwable ''traversal failed'') \<and>
   written (new_events empty_world
     (fst (execute (env_with throwing_graph) ''/src/a.c'' ''/tmp/out.json'' empty_world))) = [] \<and>
   Println NoVulnerabilitiesFound \<notin> set (new_events empty_world
     (fst (execute (env_with throwing_graph) ''/src/a.c'' ''/tmp/out.json'' empty_world))) \<and>
   snd (execute (env_with clean_graph) ''/src/a.c'' ''/tmp/out.json'' empty_world) = Inr () \<and>
   (\<exists>entries. written (new_events empty_world
       (fst (execute (env_with clean_graph) ''/src/a.c'' ''/tmp/out.json'' empty_world)))
         = [Arr entries] \<and>
      (Println NoVulnerabilitiesFound \<in> set (new_events empty_world
         (fst (execute (env_with clean_graph) ''/src/a.c'' ''/tmp/out.json'' empty_world)))
        \<longleftrightarrow> entries = [])) \<and>
   rstatus error_response = ''error'' \<and> banner_class error_response = ''error'' \<and>
   rstatus clean_response = ''success'' \<and> \<not> has_vulnerabilities clean_response \<and>
   banner_class clean_response = ''clean''"
proof -
  have c: "execute (env_with clean_graph) ''/src/a.c'' ''/tmp/out.json'' empty_world =
      (fst (execute (env_with clean_graph) ''/src/a.c'' ''/tmp/out.json'' empty_world), Inr ())"
    by (simp add: execute_clean_graph)
  have t: "execute (env_with throwing_graph) ''/src/a.c'' ''/tmp/out.json'' empty_world =
      (fst (execute (env_with throwing_graph) ''/src/a.c'' ''/tmp/out.json'' empty_world),
       Inl (Throwable ''traversal failed''))"
    by (simp add: execute_throwing_graph)
  have sc: "snd (execute (env_with clean_graph) ''/src/a.c'' ''/tmp/out.json'' empty_world) = Inr ()"
    by (simp add: execute_clean_graph)
  have st: "snd (execute (env_with throwing_graph) ''/src/a.c'' ''/tmp/out.json'' empty_world)
     = Inl (Throwable ''traversal failed'')"
    by (simp add: execute_throwing_graph)
  have e: "rstatus error_response = ''error''" by (simp add: error_response_def)
  have s: "rstatus clean_response = ''success'' \<and> \<not> has_vulnerabilities clean_response"
    by (simp add: clean_response_def has_vulnerabilities_def)
  from abort_distinct_from_empty_result [OF t] abort_distinct_from_empty_result [OF c]
    sc st e s
  show ?thesis by blast
qed

section \<open>Properties of the panel\<close>

lemma last_error_index_bound:
  "last_error_index els = Some i \<Longrightarrow> i < length els \<and> is_error_el (els ! i)"
proof (induction els arbitrary: i)
  case Nil
  then show ?case by simp
next
  case (Cons el els)
  then show ?case
    by (cases "last_error_index els") (auto split: if_splits)
qed

lemma handleAnalyze_requests:
  "snd (handleAnalyze request (Some (u # rest)) st) = [scan_payload (fsPath u)]"
  by (simp add: handleAnalyze_def Let_def scan_payload_def split: sum.splits)

lemma handleAnalyze_v2_requests:
  "snd (handleAnalyze_v2 pf request (Some (u # rest)) st) = [scan_payload (fsPath u)]"
  by (simp add: handleAnalyze_v2_def Let_def scan_payload_def split: sum.splits prod.splits)

lemma handleAnalyze_rest_ignored:
  "handleAnalyze request (Some (u # rest)) st = handleAnalyze request (Some [u]) st"
  by (simp add: handleAnalyze_def)

lemma handleAnalyze_v2_rest_ignored:
  "handleAnalyze_v2 pf request (Some (u # rest)) st = handleAnalyze_v2 pf request (Some [u]) st"
  by (simp add: handleAnalyze_v2_def)

lemma handleAnalyze_nothing_selected:
  "handleAnalyze request None st = (st, []) \<and> handleAnalyze request (Some []) st = (st, [])"
  by (simp add: handleAnalyze_def)

lemma handleAnalyze_v2_nothing_selected:
  "snd (handleAnalyze_v2 pf request None st) = [] \<and>
   snd (handleAnalyze_v2 pf request (Some []) st) = []"
  by (simp add: handleAnalyze_v2_def Let_def)

text \<open>
  Claim C10. The dialog allows several files to be selected, but in both versions of the
  panel an invocation of \<open>handleAnalyze\<close> with a non-empty selection sends exactly one
  request, whose \<open>filePath\<close> is the path of the first selected file; the remaining files
  have no effect at all on the requests sent or on the panel. With no selection, or a
  cancelled dialog, no request is sent.
\<close>

theorem only_first_selected_file_is_sent:
  "snd (handleAnalyze request (Some (u # rest)) st) = [scan_payload (fsPath u)] \<and>
   handleAnalyze request (Some (u # rest)) st = handleAnalyze request (Some [u]) st \<and>
   snd (handleAnalyze request None st) = [] \<and>
   snd (handleAnalyze request (Some []) st) = [] \<and>
   snd (handleAnalyze_v2 pf request (Some (u # rest)) st2) = [scan_payload (fsPath u)] \<and>
   handleAnalyze_v2 pf request (Some (u # rest)) st2 = handleAnalyze_v2 pf request (Some [u]) st2 \<and>
   snd (handleAnalyze_v2 pf request None st2) = [] \<and>
   snd (handleAnalyze_v2 pf request (Some []) st2) = []"
  using handleAnalyze_requests [of request u rest st] handleAnalyze_rest_ignored [of request u rest st]
    handleAnalyze_v2_requests [of pf request u rest st2]
    handleAnalyze_v2_rest_ignored [of pf request u rest st2]
    handleAnalyze_nothing_selected [of request st]
    handleAnalyze_v2_nothing_selected [of pf request st2]
  by simp

lemma addMessage_repeated_error:
  assumes "messages st \<noteq> []" and "mtype (last (messages st)) = Some Error"
    and "lastErrorContent st = c"
    and "last_error_index (messagesContainer st) = Some i"
    and "roleEl (messagesContainer st ! i) \<noteq> None"
  shows "messages (addMessage r c Error st) = messages st \<and>
         length (messagesContainer (addMessage r c Error st)) = length (messagesContainer st) \<and>
         errorCount (addMessage r c Error st) = errorCount st + 1 \<and>
         lastErrorContent (addMessage r c Error st) = c \<and>
         query_error_count (messagesContainer (addMessage r c Error st) ! i)
           = Some (errorCount st + 1)"
proof -
  from last_error_index_bound [OF assms(4)] have i: "i < length (messagesContainer st)" by simp
  from assms(5) obtain re where re: "roleEl (messagesContainer st ! i) = Some re" by auto
  have ub: "query_error_count (update_badge n (messagesContainer st ! i)) = Some n" for n
    using re by (simp add: update_badge_def query_error_count_def set_badge_def split: option.splits)
  from assms(1-4) have
    "addMessage r c Error st =
       st\<lparr>errorCount := errorCount st + 1,
          messagesContainer := (messagesContainer st)
             [i := update_badge (errorCount st + 1) (messagesContainer st ! i)]\<rparr>"
    by (simp add: addMessage_def Let_def)
  with i ub assms(3) show ?thesis by simp
qed

lemma addMessageWithStreamOption_repeated_error:
  assumes "messages st \<noteq> []" and "mtype (last (messages st)) = Some Error"
    and "lastErrorContent st = c"
    and "last_error_index (messagesContainer st) = Some i"
    and "query_error_count (messagesContainer st ! i) = None"
  shows "addMessageWithStreamOption r c Error stream dots st
           = (st\<lparr>errorCount := errorCount st + 1\<rparr>, i)"
proof -
  have "update_badge_v2 n (messagesContainer st ! i) = messagesContainer st ! i" for n
    using assms(5) by (simp add: update_badge_v2_def)
  with assms(1-4) show ?thesis
    by (simp add: addMessageWithStreamOption_def Let_def)
qed

lemma addMessage_other_resets:
  assumes "t \<noteq> Error \<or> c \<noteq> lastErrorContent st"
  shows "messages (addMessage r c t st) = messages st @ [\<lparr>role = r, content = c, mtype = Some t\<rparr>] \<and>
         length (messagesContainer (addMessage r c t st)) = Suc (length (messagesContainer st)) \<and>
         lastErrorContent (addMessage r c t st) = (if t = Error then c else []) \<and>
         errorCount (addMessage r c t st) = (if t = Error then 1 else 0)"
  using assms
  by (auto simp: addMessage_def Let_def reset_error_tracking_def renderMessage_def)

lemma addMessage_v2_other_resets:
  assumes "t \<noteq> Error \<or> c \<noteq> lastErrorContent st"
  shows "messages (addMessage_v2 r c t st) = messages st @ [\<lparr>role = r, content = c, mtype = Some t\<rparr>] \<and>
         length (messagesContainer (addMessage_v2 r c t st)) = Suc (length (messagesContainer st)) \<and>
         lastErrorContent (addMessage_v2 r c t st) = (if t = Error then c else []) \<and>
         errorCount (addMessage_v2 r c t st) = (if t = Error then 1 else 0)"
  using assms
  by (auto simp: addMessage_v2_def addMessageWithStreamOption_def Let_def push_and_render_v2_def
      reset_error_tracking_v2_def renderMessage_v2_def)

lemma first_version_shows_count:
  "map content (messages twice_failed)
     = [''Select a file to analyze for vulnerabilities.'', ''Backend down''] \<and>
   length (messagesContainer twice_failed) = 2 \<and>
   errorCount twice_failed = 2 \<and>
   map query_error_count (messagesContainer twice_failed) = [None, Some 2]"
  by (simp add: twice_failed_def renderBody_def addMessage_def Let_def reset_error_tracking_def
      renderMessage_def role_class_def state_classes_def role_label_def is_error_el_def
      update_badge_def query_error_count_def set_badge_def)

text \<open>
  Claim C9, evaluated on the second version of the panel. After the same error has been
  added twice to a freshly rendered panel, the message list and the container still hold
  two entries (the welcome message and one error) and the error count is 2, but the error
  element has no count badge: \<open>addMessageWithStreamOption\<close> only sets the text of a badge
  that already exists, and nothing creates one.
\<close>

theorem second_version_never_shows_count:
  "map content (messages twice_failed_v2)
     = [''Welcome to Graphide 2.0. Select a file to analyze.'', ''Backend down''] \<and>
   length (messagesContainer twice_failed_v2) = 2 \<and>
   errorCount twice_failed_v2 = 2 \<and>
   map query_error_count (messagesContainer twice_failed_v2) = [None, None]"
  by (simp add: twice_failed_v2_def renderBody_v2_def addMessage_v2_def
      addMessageWithStreamOption_def push_and_render_v2_def Let_def reset_error_tracking_v2_def
      renderMessage_v2_def role_class_def state_classes_def role_label_def is_error_el_def
      update_badge_v2_def query_error_count_def set_badge_def)

section \<open>Properties of the orchestrator model\<close>

lemma retry_loop_length: "length (snd (retry_loop pol call k n)) \<le> n"
proof (induction n arbitrary: k)
  case 0
  show ?case by simp
next
  case (Suc n)
  show ?case
  proof (cases "call k")
    case (Ok v)
    then show ?thesis by simp
  next
    case (StageError e)
    with Suc [of "Suc k"] show ?thesis
      by (cases "retry_loop pol call (Suc k) n") (simp split: if_splits)
  qed
qed

lemma retry_loop_delays:
  "snd (retry_loop pol call k n)
     = map (backoff_delay pol) [k ..< k + length (snd (retry_loop pol call k n))]"
proof (induction n arbitrary: k)
  case 0
  show ?case by simp
next
  case (Suc n)
  show ?case
  proof (cases "call k")
    case (Ok v)
    then show ?thesis by simp
  next
    case (StageError e)
    show ?thesis
    proof (cases "transient e")
      case True
      obtain r ds where rl: "retry_loop pol call (Suc k) n = (r, ds)"
        by (cases "retry_loop pol call (Suc k) n")
      from Suc [of "Suc k"] rl have "ds = map (backoff_delay pol) [Suc k ..< Suc k + length ds]"
        by simp
      have "map (backoff_delay pol) [k ..< k + Suc (length ds)]
              = backoff_delay pol k # map (backoff_delay pol) [Suc k ..< Suc k + length ds]"
        by (subst upt_rec) (simp del: upt_Suc)
      also have "\<dots> = backoff_delay pol k # ds"
        using \<open>ds = map (backoff_delay pol) [Suc k ..< Suc k + length ds]\<close> by metis
      finally have "backoff_delay pol k # ds
          = map (backoff_delay pol) [k ..< k + Suc (length ds)]" by simp
      with StageError True rl show ?thesis by simp
    next
      case False
      with StageError show ?thesis by simp
    qed
  qed
qed

lemma retry_loop_not_transient:
  "call k = StageError e \<Longrightarrow> \<not> transient e \<Longrightarrow> retry_loop pol call k n = (StageError e, [])"
  by (cases n) simp_all

lemma retry_loop_ok: "call k = Ok v \<Longrightarrow> retry_loop pol call k n = (Ok v, [])"
  by (cases n) simp_all

lemma retry_loop_all_transient:
  "\<forall>j < Suc n. \<exists>e. call (k + j) = StageError e \<and> transient e \<Longrightarrow>
     retry_loop pol call k n = (call (k + n), map (backoff_delay pol) [k ..< k + n])"
proof (induction n arbitrary: k)
  case 0
  show ?case by simp
next
  case (Suc n)
  from Suc.prems have "\<exists>e. call (k + 0) = StageError e \<and> transient e" by blast
  then obtain e where e: "call k = StageError e" "transient e" by auto
  have "\<forall>j < Suc n. \<exists>e. call (Suc k + j) = StageError e \<and> transient e"
  proof (intro allI impI)
    fix j assume "j < Suc n"
    then have "Suc j < Suc (Suc n)" by simp
    with Suc.prems have "\<exists>e. call (k + Suc j) = StageError e \<and> transient e" by blast
    then show "\<exists>e. call (Suc k + j) = StageError e \<and> transient e" by simp
  qed
  from Suc.IH [OF this] e show ?case by (simp add: upt_rec [of k])
qed

lemma backoff_bounded: "backoff_delay pol k \<le> max_delay pol"
  by (simp add: backoff_delay_def)

lemma retry_loop_shape:
  "length (snd (retry_loop pol call k n)) \<le> n \<and>
   fst (retry_loop pol call k n) = call (k + length (snd (retry_loop pol call k n))) \<and>
   (\<forall>j < length (snd (retry_loop pol call k n)). transient_failure (call (k + j))) \<and>
   (length (snd (retry_loop pol call k n)) < n \<longrightarrow>
      \<not> transient_failure (call (k + length (snd (retry_loop pol call k n)))))"
proof (induction n arbitrary: k)
  case 0
  show ?case by simp
next
  case (Suc n)
  show ?case
  proof (cases "call k")
    case (Ok v)
    then show ?thesis by (simp add: transient_failure_def)
  next
    case (StageError e)
    show ?thesis
    proof (cases "transient e")
      case False
      with StageError show ?thesis by (simp add: transient_failure_def)
    next
      case True
      obtain r ds where rl: "retry_loop pol call (Suc k) n = (r, ds)"
        by (cases "retry_loop pol call (Suc k) n")
      from Suc [of "Suc k"] rl have ih:
        "length ds \<le> n" "r = call (Suc k + length ds)"
        "\<forall>j < length ds. transient_failure (call (Suc k + j))"
        "length ds < n \<longrightarrow> \<not> transient_failure (call (Suc k + length ds))"
        by simp_all
      from StageError True rl have res: "retry_loop pol call k (Suc n) = (r, backoff_delay pol k # ds)"
        by simp
      have tf: "transient_failure (call k)"
        using StageError True by (simp add: transient_failure_def)
      have "\<forall>j < Suc (length ds). transient_failure (call (k + j))"
      proof (intro allI impI)
        fix j assume j: "j < Suc (length ds)"
        show "transient_failure (call (k + j))"
        proof (cases j)
          case 0
          with tf show ?thesis by simp
        next
          case (Suc j')
          with j have "j' < length ds" by simp
          with ih(3) have "transient_failure (call (Suc k + j'))" by blast
          with Suc show ?thesis by simp
        qed
      qed
      with ih show ?thesis unfolding res by simp
    qed
  qed
qed

text \<open>
  Claim C8. Under the default policy, for every sequence of results the stage client may
  give: the stage is called at least once and at most three times; the reported result is
  that of the last attempt; every attempt before the last failed with a transient error
  (\<open>Timeout\<close>, \<open>RateLimited\<close>, \<open>Unavailable\<close>); when fewer than three attempts were
  made, the last one did not; so an attempt that succeeds or fails with any other kind of
  error, \<open>InvalidResponse\<close> and \<open>Rejected\<close> among them, is the last attempt and its
  result is the one reported, whichever attempt it is. The delay waited after attempt \<open>k\<close>
  is the base delay times \<open>2 ^ k\<close>, cut off at the bound. These conditions fix the number
  of attempts, the result and the delays for every sequence.
\<close>

theorem transient_errors_retried_up_to_three_attempts:
  fixes call :: "nat \<Rightarrow> 'a stage_result"
  shows "1 \<le> attempts_made (invoke_with_retry (default_policy base cap) call) \<and>
     attempts_made (invoke_with_retry (default_policy base cap) call) \<le> 3 \<and>
     fst (invoke_with_retry (default_policy base cap) call)
       = call (attempts_made (invoke_with_retry (default_policy base cap) call) - 1) \<and>
     (\<forall>k < attempts_made (invoke_with_retry (default_policy base cap) call) - 1.
        transient_failure (call k)) \<and>
     (attempts_made (invoke_with_retry (default_policy base cap) call) < 3 \<longrightarrow>
        \<not> transient_failure
             (call (attempts_made (invoke_with_retry (default_policy base cap) call) - 1))) \<and>
     (\<forall>k < attempts_made (invoke_with_retry (default_policy base cap) call).
        \<not> transient_failure (call k) \<longrightarrow>
          Suc k = attempts_made (invoke_with_retry (default_policy base cap) call) \<and>
          fst (invoke_with_retry (default_policy base cap) call) = call k) \<and>
     snd (invoke_with_retry (default_policy base cap) call)
       = map (\<lambda>k. min cap (base * 2 ^ k))
           [0 ..< attempts_made (invoke_with_retry (default_policy base cap) call) - 1] \<and>
     (\<forall>d \<in> set (snd (invoke_with_retry (default_policy base cap) call)). d \<le> cap) \<and>
     (\<forall>e. call 0 = StageError e \<and> \<not> transient e \<longrightarrow>
          invoke_with_retry (default_policy base cap) call = (StageError e, [])) \<and>
     (\<forall>v. call 0 = Ok v \<longrightarrow> invoke_with_retry (default_policy base cap) call = (Ok v, [])) \<and>
     (\<forall>e. call 0 = StageError e \<and> transient e \<longrightarrow>
          2 \<le> attempts_made (invoke_with_retry (default_policy base cap) call)) \<and>
     ((\<forall>k < 3. \<exists>e. call k = StageError e \<and> transient e) \<longrightarrow>
          attempts_made (invoke_with_retry (default_policy base cap) call) = 3 \<and>
          fst (invoke_with_retry (default_policy base cap) call) = call 2) \<and>
     \<not> transient_failure (StageError InvalidResponse :: 'a stage_result) \<and>
     \<not> transient_failure (StageError Rejected :: 'a stage_result) \<and>
     transient_failure (StageError Timeout :: 'a stage_result) \<and>
     transient_failure (StageError RateLimited :: 'a stage_result) \<and>
     transient_failure (StageError Unavailable :: 'a stage_result)"
proof -
  let ?pol = "default_policy base cap"
  let ?r = "invoke_with_retry ?pol call"
  let ?n = "attempts_made ?r"
  have inv: "?r = retry_loop ?pol call 0 2"
    by (simp add: invoke_with_retry_def default_policy_def)
  have n: "?n - 1 = length (snd ?r)" by (simp add: attempts_made_def)
  from retry_loop_shape [of ?pol call 0 2]
  have len: "length (snd ?r) \<le> 2"
    and res: "fst ?r = call (length (snd ?r))"
    and pre: "\<forall>j < length (snd ?r). transient_failure (call j)"
    and stop: "length (snd ?r) < 2 \<longrightarrow> \<not> transient_failure (call (length (snd ?r)))"
    by (simp_all add: inv)
  have c1: "1 \<le> ?n" by (simp add: attempts_made_def)
  have c2: "?n \<le> 3" using len by (simp add: attempts_made_def)
  have c3: "fst ?r = call (?n - 1)" using res by (simp add: attempts_made_def)
  have c4: "\<forall>k < ?n - 1. transient_failure (call k)" using pre by (simp add: attempts_made_def)
  have c5: "?n < 3 \<longrightarrow> \<not> transient_failure (call (?n - 1))"
    using stop by (simp add: attempts_made_def)
  have c6: "\<forall>k < ?n. \<not> transient_failure (call k) \<longrightarrow> Suc k = ?n \<and> fst ?r = call k"
  proof (intro allI impI)
    fix k assume k: "k < ?n" and nt: "\<not> transient_failure (call k)"
    from pre nt have "\<not> k < length (snd ?r)" by blast
    with k have "k = length (snd ?r)" by (simp add: attempts_made_def)
    with res show "Suc k = ?n \<and> fst ?r = call k" by (simp add: attempts_made_def)
  qed
  have d: "snd ?r = map (backoff_delay ?pol) [0 ..< length (snd ?r)]"
    using retry_loop_delays [of ?pol call 0 2] by (simp add: inv)
  have bd: "backoff_delay ?pol = (\<lambda>k. min cap (base * 2 ^ k))"
    by (simp add: backoff_delay_def default_policy_def fun_eq_iff)
  from d bd have c7: "snd ?r = map (\<lambda>k. min cap (base * 2 ^ k)) [0 ..< ?n - 1]"
    by (simp add: attempts_made_def)
  have c8: "\<forall>d \<in> set (snd ?r). d \<le> cap"
  proof
    fix x assume "x \<in> set (snd ?r)"
    with c7 have "x \<in> set (map (\<lambda>k. min cap (base * 2 ^ k)) [0 ..< ?n - 1])" by simp
    then show "x \<le> cap" by auto
  qed
  have c9: "\<forall>e. call 0 = StageError e \<and> \<not> transient e \<longrightarrow> ?r = (StageError e, [])"
    by (simp add: inv retry_loop_not_transient)
  have c10: "\<forall>v. call 0 = Ok v \<longrightarrow> ?r = (Ok v, [])"
    by (simp add: inv retry_loop_ok)
  have c11: "\<forall>e. call 0 = StageError e \<and> transient e \<longrightarrow> 2 \<le> ?n"
  proof (intro allI impI)
    fix e assume e: "call 0 = StageError e \<and> transient e"
    then have "transient_failure (call 0)" by (simp add: transient_failure_def)
    with c5 have "\<not> ?n - 1 = 0 \<or> \<not> ?n < 3" by auto
    then show "2 \<le> ?n" using c1 by arith
  qed
  have c12: "(\<forall>k < 3. \<exists>e. call k = StageError e \<and> transient e) \<longrightarrow> ?n = 3 \<and> fst ?r = call 2"
  proof
    assume a: "\<forall>k < 3. \<exists>e. call k = StageError e \<and> transient e"
    have "\<not> ?n < 3"
    proof
      assume l: "?n < 3"
      with c5 have "\<not> transient_failure (call (?n - 1))" by blast
      moreover from l have "?n - 1 < 3" by simp
      with a have "\<exists>e. call (?n - 1) = StageError e \<and> transient e" by blast
      then have "transient_failure (call (?n - 1))" by (auto simp: transient_failure_def)
      ultimately show False by blast
    qed
    with c2 have "?n = 3" by simp
    with c3 show "?n = 3 \<and> fst ?r = call 2" by simp
  qed
  have c13: "\<not> transient_failure (StageError InvalidResponse :: 'a stage_result) \<and>
     \<not> transient_failure (StageError Rejected :: 'a stage_result) \<and>
     transient_failure (StageError Timeout :: 'a stage_result) \<and>
     transient_failure (StageError RateLimited :: 'a stage_result) \<and>
     transient_failure (StageError Unavailable :: 'a stage_result)"
    by (simp add: transient_failure_def transient_def)
  from c1 c2 c3 c4 c5 c6 c7 c8 c9 c10 c11 c12 c13 show ?thesis by blast
qed

theorem transient_errors_retried_up_to_three_attempts_witness:
  "timeout_then_rejected 0 = StageError Timeout \<and>
   timeout_then_rejected 1 = StageError Rejected \<and>
   attempts_made (invoke_with_retry (default_policy 100 1000) timeout_then_rejected) = 2 \<and>
   invoke_with_retry (default_policy 100 1000) timeout_then_rejected
     = (StageError Rejected, [100]) \<and>
   unavailable_then_ok 0 = StageError Unavailable \<and>
   unavailable_then_ok 1 = Ok () \<and>
   invoke_with_retry (default_policy 100 1000) unavailable_then_ok = (Ok (), [100]) \<and>
   always_timeout 0 = StageError Timeout \<and>
   attempts_made (invoke_with_retry (default_policy 100 1000) always_timeout) = 3 \<and>
   invoke_with_retry (default_policy 100 1000) always_timeout = (StageError Timeout, [100, 200]) \<and>
   invalid_response 0 = StageError InvalidResponse \<and>
   invoke_with_retry (default_policy 100 1000) invalid_response = (StageError InvalidResponse, []) \<and>
   succeeds_at_once 0 = Ok () \<and>
   invoke_with_retry (default_policy 100 1000) succeeds_at_once = (Ok (), [])"
proof -
  let ?pol = "default_policy 100 1000"
  note m = transient_errors_retried_up_to_three_attempts [of 100 1000 timeout_then_rejected]
  note u = transient_errors_retried_up_to_three_attempts [of 100 1000 unavailable_then_ok]
  note a = transient_errors_retried_up_to_three_attempts [of 100 1000 always_timeout]
  note b = transient_errors_retried_up_to_three_attempts [of 100 1000 invalid_response]
  note c = transient_errors_retried_up_to_three_attempts [of 100 1000 succeeds_at_once]
  have m0: "timeout_then_rejected 0 = StageError Timeout"
    and m1: "timeout_then_rejected 1 = StageError Rejected"
    by (simp_all add: timeout_then_rejected_def)
  have u0: "unavailable_then_ok 0 = StageError Unavailable"
    and u1: "unavailable_then_ok 1 = Ok ()"
    by (simp_all add: unavailable_then_ok_def)
  have tt: "transient Timeout" and tu: "transient Unavailable"
    by (simp_all add: transient_def)
  have mnt: "\<not> transient_failure (timeout_then_rejected 1)"
    by (simp add: timeout_then_rejected_def transient_failure_def transient_def)
  have unt: "\<not> transient_failure (unavailable_then_ok 1)"
    by (simp add: unavailable_then_ok_def transient_failure_def)
  from m m0 tt have m2: "2 \<le> attempts_made (invoke_with_retry ?pol timeout_then_rejected)"
    by blast
  then have "1 < attempts_made (invoke_with_retry ?pol timeout_then_rejected)" by simp
  with m mnt have mn: "Suc 1 = attempts_made (invoke_with_retry ?pol timeout_then_rejected)"
    and mf: "fst (invoke_with_retry ?pol timeout_then_rejected) = timeout_then_rejected 1"
    by blast+
  from mn have mn': "attempts_made (invoke_with_retry ?pol timeout_then_rejected) = 2" by simp
  from m have "snd (invoke_with_retry ?pol timeout_then_rejected)
       = map (\<lambda>k. min 1000 (100 * 2 ^ k))
           [0 ..< attempts_made (invoke_with_retry ?pol timeout_then_rejected) - 1]"
    by blast
  with mn' have ms: "snd (invoke_with_retry ?pol timeout_then_rejected) = [100]" by simp
  from mf ms m1 have mr: "invoke_with_retry ?pol timeout_then_rejected = (StageError Rejected, [100])"
    by (simp add: prod_eq_iff)
  from u u0 tu have "2 \<le> attempts_made (invoke_with_retry ?pol unavailable_then_ok)"
    by blast
  then have "1 < attempts_made (invoke_with_retry ?pol unavailable_then_ok)" by simp
  with u unt have un: "Suc 1 = attempts_made (invoke_with_retry ?pol unavailable_then_ok)"
    and uf: "fst (invoke_with_retry ?pol unavailable_then_ok) = unavailable_then_ok 1"
    by blast+
  from un have un': "attempts_made (invoke_with_retry ?pol unavailable_then_ok) = 2" by simp
  from u have "snd (invoke_with_retry ?pol unavailable_then_ok)
       = map (\<lambda>k. min 1000 (100 * 2 ^ k))
           [0 ..< attempts_made (invoke_with_retry ?pol unavailable_then_ok) - 1]"
    by blast
  with un' have us: "snd (invoke_with_retry ?pol unavailable_then_ok) = [100]" by simp
  from uf us u1 have ur: "invoke_with_retry ?pol unavailable_then_ok = (Ok (), [100])"
    by (simp add: prod_eq_iff)
  have t0: "always_timeout 0 = StageError Timeout" by (simp add: always_timeout_def)
  have t3: "\<forall>k < 3. \<exists>e. always_timeout k = StageError e \<and> transient e"
    by (simp add: always_timeout_def transient_def)
  from a t3 have a3: "attempts_made (invoke_with_retry ?pol always_timeout) = 3"
    and af: "fst (invoke_with_retry ?pol always_timeout) = always_timeout 2"
    by blast+
  from a have "snd (invoke_with_retry ?pol always_timeout)
       = map (\<lambda>k. min 1000 (100 * 2 ^ k))
           [0 ..< attempts_made (invoke_with_retry ?pol always_timeout) - 1]"
    by blast
  with a3 have ad: "snd (invoke_with_retry ?pol always_timeout) = [100, 200]"
    by (simp add: numeral_2_eq_2)
  from af ad have ar: "invoke_with_retry ?pol always_timeout = (StageError Timeout, [100, 200])"
    by (simp add: always_timeout_def prod_eq_iff)
  have i0: "invalid_response 0 = StageError InvalidResponse" by (simp add: invalid_response_def)
  have ni: "\<not> transient InvalidResponse" by (simp add: transient_def)
  from b i0 ni have br: "invoke_with_retry ?pol invalid_response = (StageError InvalidResponse, [])"
    by blast
  have s0: "succeeds_at_once 0 = Ok ()" by (simp add: succeeds_at_once_def)
  from c s0 have cr: "invoke_with_retry ?pol succeeds_at_once = (Ok (), [])" by blast
  from m0 m1 mn' mr u0 u1 ur t0 a3 ar i0 br s0 cr show ?thesis by blast
qed

lemma verify_from_length: "length (verify_from pol v i cs) = length cs"
  by (induction cs arbitrary: i) simp_all

lemma verify_from_nth:
  "j < length ps \<Longrightarrow>
     verification (verify_from pol v i (map propose ps) ! j)
       = (case fst (invoke_with_retry pol (v (i + j))) of
            Ok Accepted \<Rightarrow> Valid
          | Ok (Refused errs) \<Rightarrow> Invalid errs
          | StageError e \<Rightarrow> Unverified)"
proof (induction ps arbitrary: i j)
  case Nil
  then show ?case by simp
next
  case (Cons p ps)
  show ?case
  proof (cases j)
    case 0
    then show ?thesis
      by (simp add: record_verification_def propose_def
          split: stage_result.splits verdict.splits)
  next
    case (Suc j')
    with Cons.prems have "j' < length ps" by simp
    from Cons.IH [OF this, of "Suc i"] Suc show ?thesis by simp
  qed
qed

lemma verify_from_valid_iff:
  "j < length ps \<Longrightarrow>
     verification (verify_from pol v i (map propose ps) ! j) = Valid
       \<longleftrightarrow> fst (invoke_with_retry pol (v (i + j))) = Ok Accepted"
  by (simp add: verify_from_nth split: stage_result.splits verdict.splits)

lemma apply_stage_valid: "c \<in> set (apply_stage cands) \<longleftrightarrow> c \<in> set cands \<and> verification c = Valid"
  by (auto simp: apply_stage_def)

lemma run_cases:
  "run pol cs = failed_run \<or>
   (\<exists>ps. candidates (run pol cs) = verify_from pol (verifier cs) 0 (map propose ps) \<and>
         apply_calls (run pol cs) = apply_stage (candidates (run pol cs)))"
  by (auto simp: run_def Let_def split: stage_result.splits)

text \<open>
  Claim C1. In every run, whatever the collaborators answer, every candidate handed to the
  patch-apply collaborator is a candidate of the run whose verification is \<open>Valid\<close>; a
  candidate that is \<open>Unverified\<close> or \<open>Invalid\<close> is never handed over; and a candidate
  is \<open>Valid\<close> exactly when the verifier accepted it.
\<close>

theorem only_valid_candidates_reach_apply:
  "(\<forall>c \<in> set (apply_calls (run pol cs)).
      verification c = Valid \<and> c \<in> set (candidates (run pol cs))) \<and>
   (\<forall>c \<in> set (candidates (run pol cs)).
      verification c \<noteq> Valid \<longrightarrow> c \<notin> set (apply_calls (run pol cs))) \<and>
   (\<forall>j < length (candidates (run pol cs)).
      verification (candidates (run pol cs) ! j) = Valid
        \<longleftrightarrow> fst (invoke_with_retry pol (verifier cs j)) = Ok Accepted)"
proof -
  from run_cases [of pol cs] show ?thesis
  proof
    assume "run pol cs = failed_run"
    then show ?thesis by (simp add: failed_run_def)
  next
    assume "\<exists>ps. candidates (run pol cs) = verify_from pol (verifier cs) 0 (map propose ps) \<and>
         apply_calls (run pol cs) = apply_stage (candidates (run pol cs))"
    then obtain ps where c: "candidates (run pol cs) = verify_from pol (verifier cs) 0 (map propose ps)"
      and a: "apply_calls (run pol cs) = apply_stage (candidates (run pol cs))" by blast
    have "\<forall>j < length (candidates (run pol cs)).
      verification (candidates (run pol cs) ! j) = Valid
        \<longleftrightarrow> fst (invoke_with_retry pol (verifier cs j)) = Ok Accepted"
      using verify_from_valid_iff [of _ ps pol "verifier cs" 0]
      by (simp add: c verify_from_length)
    with a show ?thesis by (simp add: apply_stage_valid)
  qed
qed

lemma invoke_default:
  "invoke_with_retry (default_policy base cap) call
     = retry_loop (default_policy base cap) call 0 (Suc (Suc 0))"
  by (simp add: invoke_with_retry_def default_policy_def numeral_2_eq_2)

lemma run_demo:
  "apply_calls (run (default_policy 100 1000) demo_collaborators)
     = [\<lparr>findingId = ''F1'', originalCode = ''strcpy(d, s);'',
         proposedCode = ''strlcpy(d, s, n);'', verification = Valid\<rparr>] \<and>
   map verification (candidates (run (default_policy 100 1000) demo_collaborators))
     = [Valid, Invalid [''syntax error''], Unverified]"
  by (simp add: run_def invoke_default demo_collaborators_def three_proposals_def Let_def
      propose_def record_verification_def apply_stage_def transient_def)

theorem only_valid_candidates_reach_apply_witness:
  "apply_calls (run (default_policy 100 1000) demo_collaborators)
     = [\<lparr>findingId = ''F1'', originalCode = ''strcpy(d, s);'',
         proposedCode = ''strlcpy(d, s, n);'', verification = Valid\<rparr>] \<and>
   map verification (candidates (run (default_policy 100 1000) demo_collaborators))
     = [Valid, Invalid [''syntax error''], Unverified] \<and>
   list_all (\<lambda>c. verification c = Valid \<and>
                  c \<in> set (candidates (run (default_policy 100 1000) demo_collaborators)))
     (apply_calls (run (default_policy 100 1000) demo_collaborators))"
proof -
  from only_valid_candidates_reach_apply [of "default_policy 100 1000" demo_collaborators]
  have "list_all (\<lambda>c. verification c = Valid \<and>
                  c \<in> set (candidates (run (default_policy 100 1000) demo_collaborators)))
     (apply_calls (run (default_policy 100 1000) demo_collaborators))"
    unfolding list_all_iff by blast
  with run_demo show ?thesis by blast
qed

lemma analyzeFiles_sends_one_request:
  "truthy (afFilePath msg) \<Longrightarrow> length (snd (handleMessage_analyzeFiles request msg)) = 1"
  by (simp add: handleMessage_analyzeFiles_def Let_def split: sum.splits)

end
